theory Spec2Isabelle
  imports Main
begin

section \<open>Strings and JavaScript values\<close>

text \<open>
  JavaScript strings are modelled as \<^typ>\<open>string\<close>; a character stands for one code unit
  in the range 0..255. Thrown values are modelled by the text that the template literal
  \<^verbatim>\<open>${error}\<close> renders for them, so the error type is \<^typ>\<open>string\<close> and a fallible
  operation returns \<open>string + 'a\<close> with \<open>Inl\<close> for the throw.
\<close>

definition newline :: string where
  "newline = [CHR 0x0A]"

fun join :: "string \<Rightarrow> string list \<Rightarrow> string" where
  "join sep [] = []"
| "join sep [x] = x"
| "join sep (x # y # ys) = x @ sep @ join sep (y # ys)"

text \<open>The values a schema module can export or a generator can return. Numbers are
  restricted to the integers, symbols and big integers are left out; functions are
  identified by a number and run by the host.\<close>

datatype jsval =
    VUndefined
  | VNull
  | VBool bool
  | VNum int
  | VStr string
  | VArr "jsval list"
  | VObj "(string \<times> jsval) list"
  | VFun nat

fun typeof :: "jsval \<Rightarrow> string" where
  "typeof VUndefined = ''undefined''"
| "typeof VNull = ''object''"
| "typeof (VBool b) = ''boolean''"
| "typeof (VNum n) = ''number''"
| "typeof (VStr s) = ''string''"
| "typeof (VArr xs) = ''object''"
| "typeof (VObj kvs) = ''object''"
| "typeof (VFun f) = ''function''"

text \<open>The condition of \<^verbatim>\<open>if (duplicateRules)\<close>.\<close>

fun truthy :: "jsval \<Rightarrow> bool" where
  "truthy VUndefined = False"
| "truthy VNull = False"
| "truthy (VBool b) = b"
| "truthy (VNum n) = (n \<noteq> 0)"
| "truthy (VStr s) = (s \<noteq> [])"
| "truthy (VArr xs) = True"
| "truthy (VObj kvs) = True"
| "truthy (VFun f) = True"

fun show_nat :: "nat \<Rightarrow> string" where
  "show_nat n =
     (if n < 10 then [char_of (48 + n)]
      else show_nat (n div 10) @ [char_of (48 + n mod 10)])"

declare show_nat.simps [simp del]

definition show_int :: "int \<Rightarrow> string" where
  "show_int i = (if i < 0 then CHR ''-'' # show_nat (nat (- i)) else show_nat (nat i))"

section \<open>The host: file system, path library, module loader, JSON\<close>

text \<open>
  Everything the plugin calls but does not define is a field of the host: \<^verbatim>\<open>fs\<close>,
  \<^verbatim>\<open>path\<close>, \<^verbatim>\<open>require.resolve\<close>, the loading of a module that is not in the
  module cache (which also leaves the modules it requires itself in the cache), the call of an
  exported function, and \<^verbatim>\<open>JSON\<close>. A host stands for the file system and the modules as
  they are during one batch; a later batch may run on another host.
\<close>

record host =
  readdir :: "string \<Rightarrow> string + string list"
  stat_isFile :: "string \<Rightarrow> string + bool"
  readFile :: "string \<Rightarrow> string + string"
  path_resolve :: "string \<Rightarrow> string \<Rightarrow> string"
  path_relative :: "string \<Rightarrow> string \<Rightarrow> string"
  path_join :: "string \<Rightarrow> string \<Rightarrow> string"
  path_basename :: "string \<Rightarrow> string \<Rightarrow> string"
  path_extname :: "string \<Rightarrow> string"
  path_dirname :: "string \<Rightarrow> string"
  require_resolve :: "string \<Rightarrow> string + string"
  module_load :: "string \<Rightarrow> (string \<times> jsval) list \<times> (string + jsval)"
  call_function :: "nat \<Rightarrow> string \<Rightarrow> jsval \<Rightarrow> string + jsval"
  function_source :: "nat \<Rightarrow> string"
  JSON_parse :: "string \<Rightarrow> string + jsval"
  JSON_stringify :: "jsval \<Rightarrow> string + string"

text \<open>\<^verbatim>\<open>String(v)\<close>, as a template literal and \<^verbatim>\<open>String.prototype.replace\<close> apply it.\<close>

fun to_string :: "host \<Rightarrow> jsval \<Rightarrow> string" where
  "to_string h VUndefined = ''undefined''"
| "to_string h VNull = ''null''"
| "to_string h (VBool b) = (if b then ''true'' else ''false'')"
| "to_string h (VNum n) = show_int n"
| "to_string h (VStr s) = s"
| "to_string h (VArr xs) =
     join '','' (map (\<lambda>x. if x = VUndefined \<or> x = VNull then [] else to_string h x) xs)"
| "to_string h (VObj kvs) = ''[object Object]''"
| "to_string h (VFun f) = function_source h f"

text \<open>An element of \<^verbatim>\<open>Array.prototype.join\<close>: undefined and null give the empty string.\<close>

definition join_element :: "host \<Rightarrow> jsval \<Rightarrow> string" where
  "join_element h v = (if v = VUndefined \<or> v = VNull then [] else to_string h v)"

section \<open>Regular expressions\<close>

text \<open>
  A backtracking matcher for the fragment the three regular expressions of the plugin use:
  literals, greedy \<^verbatim>\<open>*\<close> over a character class, greedy \<^verbatim>\<open>?\<close>, sequence, alternative
  and capture groups. The continuation receives the rest of the input and the captures;
  alternatives are tried in the order of the backtracking engine.
\<close>

datatype cclass = WhiteSpace | Dot | AnyChar

fun in_class :: "cclass \<Rightarrow> char \<Rightarrow> bool" where
  "in_class WhiteSpace c =
     (c \<in> set [CHR 0x09, CHR 0x0A, CHR 0x0B, CHR 0x0C, CHR 0x0D, CHR 0x20, CHR 0xA0])"
| "in_class Dot c = (c \<noteq> CHR 0x0A \<and> c \<noteq> CHR 0x0D)"
| "in_class AnyChar c = True"

datatype regex =
    Lit string
  | Star cclass
  | Opt regex
  | Seq regex regex
  | Alt regex regex
  | Grp nat regex

type_synonym captures = "nat \<Rightarrow> string option"

fun star_match :: "cclass \<Rightarrow> string \<Rightarrow> (string \<Rightarrow> 'a option) \<Rightarrow> 'a option" where
  "star_match cl [] k = k []"
| "star_match cl (x # xs) k =
     (if in_class cl x
      then (case star_match cl xs k of Some r \<Rightarrow> Some r | None \<Rightarrow> k (x # xs))
      else k (x # xs))"

fun rmatch ::
  "regex \<Rightarrow> string \<Rightarrow> captures \<Rightarrow> (string \<Rightarrow> captures \<Rightarrow> 'a option) \<Rightarrow> 'a option" where
  "rmatch (Lit l) s c k = (if take (length l) s = l then k (drop (length l) s) c else None)"
| "rmatch (Star cl) s c k = star_match cl s (\<lambda>s'. k s' c)"
| "rmatch (Opt r) s c k =
     (case rmatch r s c (\<lambda>s' c'. if length s' = length s then None else k s' c') of
        Some x \<Rightarrow> Some x
      | None \<Rightarrow> k s c)"
| "rmatch (Seq a b) s c k = rmatch a s c (\<lambda>s' c'. rmatch b s' c' k)"
| "rmatch (Alt a b) s c k =
     (case rmatch a s c k of Some x \<Rightarrow> Some x | None \<Rightarrow> rmatch b s c k)"
| "rmatch (Grp n r) s c k =
     rmatch r s c (\<lambda>s' c'. k s' (c'(n \<mapsto> take (length s - length s') s)))"

record rx_match =
  before :: string
  matched :: string
  after :: string
  groups :: captures

text \<open>The leftmost match: the start positions are tried from left to right.\<close>

fun search :: "regex \<Rightarrow> string \<Rightarrow> string \<Rightarrow> rx_match option" where
  "search r pre [] =
     (case rmatch r [] (\<lambda>_. None) (\<lambda>s' c. Some (s', c)) of
        Some (s', c) \<Rightarrow> Some \<lparr>before = pre, matched = [], after = [], groups = c\<rparr>
      | None \<Rightarrow> None)"
| "search r pre (x # xs) =
     (case rmatch r (x # xs) (\<lambda>_. None) (\<lambda>s' c. Some (s', c)) of
        Some (s', c) \<Rightarrow>
          Some \<lparr>before = pre, matched = take (length (x # xs) - length s') (x # xs),
                after = s', groups = c\<rparr>
      | None \<Rightarrow> search r (pre @ [x]) xs)"

definition regex_exec :: "regex \<Rightarrow> string \<Rightarrow> rx_match option" where
  "regex_exec r s = search r [] s"

fun ngroups :: "regex \<Rightarrow> nat" where
  "ngroups (Lit l) = 0"
| "ngroups (Star cl) = 0"
| "ngroups (Opt r) = ngroups r"
| "ngroups (Seq a b) = ngroups a + ngroups b"
| "ngroups (Alt a b) = ngroups a + ngroups b"
| "ngroups (Grp n r) = Suc (ngroups r)"

fun seqs :: "regex list \<Rightarrow> regex" where
  "seqs [] = Lit []"
| "seqs [r] = r"
| "seqs (r # rs) = Seq r (seqs rs)"

subsection \<open>Replacement text\<close>

definition is_digit :: "char \<Rightarrow> bool" where
  "is_digit c = (48 \<le> (of_char c :: nat) \<and> (of_char c :: nat) \<le> 57)"

definition digit_val :: "char \<Rightarrow> nat" where
  "digit_val c = of_char c - 48"

definition capture_text :: "captures \<Rightarrow> nat \<Rightarrow> string" where
  "capture_text caps i = (case caps i of None \<Rightarrow> [] | Some s \<Rightarrow> s)"

text \<open>
  The expansion of the dollar patterns of a replacement string (GetSubstitution of
  ECMAScript, without named groups): \<open>m\<close> is the matched text, \<open>pre\<close> and \<open>post\<close> the text
  before and after it, \<open>n\<close> the number of capture groups.
\<close>

fun get_substitution ::
  "string \<Rightarrow> string \<Rightarrow> string \<Rightarrow> captures \<Rightarrow> nat \<Rightarrow> string \<Rightarrow> string" where
  "get_substitution m pre post caps n [] = []"
| "get_substitution m pre post caps n [c] = [c]"
| "get_substitution m pre post caps n (c # d # t) =
     (if c \<noteq> CHR ''$'' then c # get_substitution m pre post caps n (d # t)
      else if d = CHR ''$'' then CHR ''$'' # get_substitution m pre post caps n t
      else if d = CHR ''&'' then m @ get_substitution m pre post caps n t
      else if d = CHR 0x60 then pre @ get_substitution m pre post caps n t
      else if d = CHR 0x27 then post @ get_substitution m pre post caps n t
      else if is_digit d then
        (case t of
           e # t' \<Rightarrow>
             if is_digit e \<and> 10 * digit_val d + digit_val e \<le> n then
               (if 1 \<le> 10 * digit_val d + digit_val e
                then capture_text caps (10 * digit_val d + digit_val e)
                       @ get_substitution m pre post caps n t'
                else [c, d, e] @ get_substitution m pre post caps n t')
             else if 1 \<le> digit_val d \<and> digit_val d \<le> n
               then capture_text caps (digit_val d) @ get_substitution m pre post caps n t
               else [c, d] @ get_substitution m pre post caps n t
         | [] \<Rightarrow>
             if 1 \<le> digit_val d \<and> digit_val d \<le> n
             then capture_text caps (digit_val d) @ get_substitution m pre post caps n t
             else [c, d] @ get_substitution m pre post caps n t)
      else CHR ''$'' # get_substitution m pre post caps n (d # t))"

text \<open>\<^verbatim>\<open>subject.replace(regex, replacement)\<close> for a regular expression without the
  global flag: the leftmost match only.\<close>

definition regex_replace :: "regex \<Rightarrow> string \<Rightarrow> string \<Rightarrow> string" where
  "regex_replace r subject replacement =
     (case regex_exec r subject of
        None \<Rightarrow> subject
      | Some m \<Rightarrow>
          before m
          @ get_substitution (matched m) (before m) (after m) (groups m) (ngroups r) replacement
          @ after m)"

fun find_first :: "string \<Rightarrow> string \<Rightarrow> string \<Rightarrow> (string \<times> string) option" where
  "find_first pat pre [] = (if pat = [] then Some (pre, []) else None)"
| "find_first pat pre (x # xs) =
     (if take (length pat) (x # xs) = pat then Some (pre, drop (length pat) (x # xs))
      else find_first pat (pre @ [x]) xs)"

text \<open>\<^verbatim>\<open>subject.replace(pattern, replacement)\<close> for a string pattern: the first
  occurrence only, the replacement expanded as above with no capture groups.\<close>

definition string_replace :: "string \<Rightarrow> string \<Rightarrow> string \<Rightarrow> string" where
  "string_replace subject pat replacement =
     (case find_first pat [] subject of
        None \<Rightarrow> subject
      | Some (pre, post) \<Rightarrow>
          pre @ get_substitution pat pre post (\<lambda>_. None) 0 replacement @ post)"

text \<open>Whether \<open>pat\<close> occurs in \<open>s\<close>.\<close>

definition contains :: "string \<Rightarrow> string \<Rightarrow> bool" where
  "contains s pat = (find_first pat [] s \<noteq> None)"

section \<open>The plugin\<close>

text \<open>
  The options of the plugin (\<^verbatim>\<open>from.liquid\<close>, \<^verbatim>\<open>from.schema\<close>, \<^verbatim>\<open>to\<close>) and the two
  constants read from the compilation (\<^verbatim>\<open>compilation.compiler.outputPath\<close>,
  \<^verbatim>\<open>compilation.options.context\<close>).
\<close>

record options =
  from_liquid :: string
  from_schema :: string
  to_path :: string
  outputPath :: string
  options_context :: string

text \<open>
  The order of two kinds of steps is recorded: the additions to the context dependencies and
  the starts of the callbacks of the directory entries.
\<close>

datatype event = ContextDependencyAdded string | EntryStarted string

text \<open>
  The mutable state: the four collections of the compilation, the module cache of the
  process (\<^verbatim>\<open>require.cache\<close>, from resolved file name to exports), the log of the
  calls of exported functions (function, first argument, second argument) and the trace of
  the events above, in the order in which they happen.
\<close>

record world =
  assets :: "string \<rightharpoonup> string"
  errors :: "string list"
  contextDependencies :: "string set"
  fileDependencies :: "string set"
  require_cache :: "(string \<times> jsval) list"
  calls :: "(nat \<times> string \<times> jsval) list"
  trace :: "event list"

subsection \<open>Module loading\<close>

definition cache_add :: "string \<times> jsval \<Rightarrow> (string \<times> jsval) list \<Rightarrow> (string \<times> jsval) list" where
  "cache_add kv c = (if fst kv \<in> set (map fst c) then c else c @ [kv])"

text \<open>
  \<^verbatim>\<open>require(p)\<close>: the path is resolved (a failure throws); a cached module is returned
  without loading; otherwise the module is loaded, it and the modules it required enter the
  cache, and a module that throws while loading does not stay in the cache.
\<close>

definition require :: "host \<Rightarrow> string \<Rightarrow> world \<Rightarrow> world \<times> (string + jsval)" where
  "require h p w =
     (case require_resolve h p of
        Inl e \<Rightarrow> (w, Inl e)
      | Inr filename \<Rightarrow>
          (case map_of (require_cache w) filename of
             Some v \<Rightarrow> (w, Inr v)
           | None \<Rightarrow>
               (case module_load h filename of
                  (loaded, Inl e) \<Rightarrow>
                    (w\<lparr>require_cache :=
                         filter (\<lambda>kv. fst kv \<noteq> filename) (fold cache_add loaded (require_cache w))\<rparr>,
                     Inl e)
                | (loaded, Inr v) \<Rightarrow>
                    (w\<lparr>require_cache :=
                         cache_add (filename, v) (fold cache_add loaded (require_cache w))\<rparr>,
                     Inr v))))"

subsection \<open>Output keys\<close>

definition getOutputKeyByFileName :: "host \<Rightarrow> options \<Rightarrow> string \<Rightarrow> string \<Rightarrow> string" where
  "getOutputKeyByFileName h opts fileName compilationOutput =
     (let relativeOutputPath = path_relative h compilationOutput (to_path opts)
      in path_join h relativeOutputPath fileName)"

definition getOutputKey :: "host \<Rightarrow> options \<Rightarrow> string \<Rightarrow> string \<Rightarrow> string" where
  "getOutputKey h opts liquidSourcePath compilationOutput =
     (let fileName = path_relative h (from_liquid opts) liquidSourcePath
      in getOutputKeyByFileName h opts fileName compilationOutput)"

subsection \<open>The schema directive\<close>

definition tag_open :: "string \<Rightarrow> regex list" where
  "tag_open name =
     [Lit ''{%'', Opt (Lit ''-''), Star WhiteSpace, Lit name, Star WhiteSpace]"

definition tag_close :: "regex list" where
  "tag_close = [Opt (Lit ''-''), Lit ''%}'']"

text \<open>\<^verbatim>\<open>/{%-?\s*schema\s*('.*'|".*")\s*-?%}(([\s\S]*){%-?\s*endschema\s*-?%})?/\<close>\<close>

definition replaceableSchemaRegex :: regex where
  "replaceableSchemaRegex = seqs
     (tag_open ''schema''
      @ [Grp 1 (Alt (seqs [Lit [CHR 0x27], Star Dot, Lit [CHR 0x27]])
                    (seqs [Lit [CHR 0x22], Star Dot, Lit [CHR 0x22]])),
         Star WhiteSpace]
      @ tag_close
      @ [Opt (Grp 2 (seqs ([Grp 3 (Star AnyChar)] @ tag_open ''endschema'' @ tag_close)))])"

definition is_quote :: "char \<Rightarrow> bool" where
  "is_quote c = (c = CHR 0x27 \<or> c = CHR 0x22)"

text \<open>\<^verbatim>\<open>importableFilePath.replace(/(^('|"))|(('|")$)/g, '')\<close>: a quote at the start and a
  quote at the end of what is left are removed.\<close>

definition strip_quotes :: "string \<Rightarrow> string" where
  "strip_quotes s =
     (let s1 = (case s of [] \<Rightarrow> [] | c # t \<Rightarrow> if is_quote c then t else s)
      in if s1 \<noteq> [] \<and> is_quote (last s1) then butlast s1 else s1)"

text \<open>\<^verbatim>\<open>Template.asString\<close> of webpack on an array of lines.\<close>

definition asString :: "string list \<Rightarrow> string" where
  "asString ls = join newline ls"

definition load_error_message :: "string \<Rightarrow> string \<Rightarrow> string \<Rightarrow> string" where
  "load_error_message match importableFilePath fileLocation =
     join newline
       [match, ''^'',
        ''      File to import not found or unreadable: '' @ importableFilePath,
        ''      in '' @ fileLocation]"

definition type_error_message :: "host \<Rightarrow> jsval \<Rightarrow> string \<Rightarrow> string" where
  "type_error_message h schema resolved =
     join newline
       [join_element h schema, ''^'',
        ''      Schema expected to be of type '' @ [CHR 0x22] @ ''object'' @ [CHR 0x22],
        ''      in '' @ resolved]"

text \<open>The second argument of a generator: \<^verbatim>\<open>JSON.parse(contents)\<close>, or null when that
  throws. A group that did not take part is \<^verbatim>\<open>undefined\<close>, on which \<^verbatim>\<open>JSON.parse\<close>
  throws a SyntaxError.\<close>

definition parse_contents :: "host \<Rightarrow> string option \<Rightarrow> jsval" where
  "parse_contents h contents =
     (case contents of
        None \<Rightarrow> VNull
      | Some s \<Rightarrow> (case JSON_parse h s of Inl e \<Rightarrow> VNull | Inr v \<Rightarrow> v))"

text \<open>Lines 175 to 178: an exported function is called with the file name and the
  contents; the call is logged.\<close>

definition effective_schema ::
  "host \<Rightarrow> jsval \<Rightarrow> string \<Rightarrow> jsval \<Rightarrow> world \<Rightarrow> world \<times> (string + jsval)" where
  "effective_schema h importedSchema fileName contents w =
     (case importedSchema of
        VFun f \<Rightarrow> (w\<lparr>calls := calls w @ [(f, fileName, contents)]\<rparr>,
                   call_function h f fileName contents)
      | _ \<Rightarrow> (w, Inr importedSchema))"

definition replaceSchemaTags ::
  "host \<Rightarrow> options \<Rightarrow> string \<Rightarrow> world \<Rightarrow> world \<times> (string + string)" where
  "replaceSchemaTags h opts fileLocation w =
     (let fileName = path_basename h fileLocation ''.liquid'' in
      case readFile h fileLocation of
        Inl e \<Rightarrow> (w, Inl e)
      | Inr fileContents \<Rightarrow>
      (case regex_exec replaceableSchemaRegex fileContents of
        None \<Rightarrow> (w, Inr fileContents)
      | Some m \<Rightarrow>
      (case groups m 1 of
        None \<Rightarrow> (w, Inl ''TypeError: Cannot read properties of undefined'')
      | Some literal \<Rightarrow>
      (let importableFilePath = path_resolve h (from_schema opts) (strip_quotes literal) in
       case require_resolve h importableFilePath of
         Inl e \<Rightarrow> (w, Inl e)
       | Inr resolved \<Rightarrow>
       (let w1 = w\<lparr>fileDependencies := insert resolved (fileDependencies w)\<rparr> in
        case require h importableFilePath w1 of
          (w2, Inl e) \<Rightarrow>
            (w2, Inl (load_error_message (matched m) importableFilePath fileLocation))
        | (w2, Inr importedSchema) \<Rightarrow>
        (let contents = parse_contents h (groups m 3) in
         case effective_schema h importedSchema fileName contents w2 of
           (w3, Inl e) \<Rightarrow> (w3, Inl e)
         | (w3, Inr schema) \<Rightarrow>
             if typeof schema \<noteq> ''object'' then
               (case require_resolve h importableFilePath of
                  Inl e \<Rightarrow> (w3, Inl e)
                | Inr r \<Rightarrow> (w3, Inl (type_error_message h schema r)))
             else
               (case JSON_stringify h schema of
                  Inl e \<Rightarrow> (w3, Inl e)
                | Inr text \<Rightarrow>
                    (w3, Inr (regex_replace replaceableSchemaRegex fileContents
                                (asString [''{% schema %}'', text, ''{% endschema %}'']))))))))))"

subsection \<open>The duplicate directive\<close>

text \<open>\<^verbatim>\<open>/{%-?\s*duplicate\s*-?%}(([\s\S]*)){%-?\s*endduplicate\s*-?%}/\<close>\<close>

definition duplicateRulesRegex :: regex where
  "duplicateRulesRegex = seqs
     (tag_open ''duplicate'' @ tag_close
      @ [Grp 1 (Grp 2 (Star AnyChar))]
      @ tag_open ''endduplicate'' @ tag_close)"

text \<open>\<^verbatim>\<open>/{%-?\s*duplicate\s*-?%}(([\s\S]*)){%-?\s*endduplicate\s*-?%}\n\n/\<close>\<close>

definition cleanDuplicateRegex :: regex where
  "cleanDuplicateRegex = seqs
     (tag_open ''duplicate'' @ tag_close
      @ [Grp 1 (Grp 2 (Star AnyChar))]
      @ tag_open ''endduplicate'' @ tag_close
      @ [Lit (newline @ newline)])"

definition getDuplicateRules :: "host \<Rightarrow> string \<Rightarrow> string + jsval" where
  "getDuplicateRules h fileContents =
     (case regex_exec duplicateRulesRegex fileContents of
        None \<Rightarrow> Inr (VStr [])
      | Some m \<Rightarrow>
          (case groups m 1 of
             None \<Rightarrow> Inl ''SyntaxError: undefined is not valid JSON''
           | Some body \<Rightarrow> if body \<noteq> [] then JSON_parse h body else Inr (VStr [])))"

definition cleanDupicateTag :: "string \<Rightarrow> string" where
  "cleanDupicateTag fileContents = regex_replace cleanDuplicateRegex fileContents []"

definition placeholder :: string where
  "placeholder = ''-{{title_section}}-''"

text \<open>One round of the \<^verbatim>\<open>forEach\<close> of \<^verbatim>\<open>duplicatedFiles\<close>.\<close>

definition add_variant ::
  "host \<Rightarrow> options \<Rightarrow> string \<Rightarrow> string \<Rightarrow> jsval \<Rightarrow> (string \<rightharpoonup> string) \<Rightarrow> (string \<rightharpoonup> string)" where
  "add_variant h opts fileLocation fileContent newFileName assetList =
     (let outputKey =
            getOutputKeyByFileName h opts (to_string h newFileName @ ''.liquid'') fileLocation
      in assetList(outputKey \<mapsto>
           string_replace fileContent placeholder (to_string h newFileName)))"

definition duplicatedFiles ::
  "host \<Rightarrow> options \<Rightarrow> string \<Rightarrow> jsval \<Rightarrow> string \<Rightarrow> (string \<rightharpoonup> string)
     \<Rightarrow> string + (string \<rightharpoonup> string)" where
  "duplicatedFiles h opts fileLocation duplicateRules fileContent assetList =
     (if truthy duplicateRules then
        (case duplicateRules of
           VArr names \<Rightarrow> Inr (fold (add_variant h opts fileLocation fileContent) names assetList)
         | _ \<Rightarrow> Inl ''TypeError: duplicateRules.forEach is not a function'')
      else Inr assetList)"

subsection \<open>The batch\<close>

text \<open>The body of the \<^verbatim>\<open>try\<close> block of \<^verbatim>\<open>buildSchema\<close> for one template.\<close>

definition transformFile ::
  "host \<Rightarrow> options \<Rightarrow> string \<Rightarrow> string \<Rightarrow> world \<Rightarrow> world \<times> (string + unit)" where
  "transformFile h opts fileLocation outputKey w =
     (case replaceSchemaTags h opts fileLocation w of
        (w1, Inl e) \<Rightarrow> (w1, Inl e)
      | (w1, Inr outputFile) \<Rightarrow>
          (case getDuplicateRules h outputFile of
             Inl e \<Rightarrow> (w1, Inl e)
           | Inr duplicateRules \<Rightarrow>
               if truthy duplicateRules then
                 (case duplicatedFiles h opts (outputPath opts) duplicateRules
                         (cleanDupicateTag outputFile) (assets w1) of
                    Inl e \<Rightarrow> (w1, Inl e)
                  | Inr a \<Rightarrow> (w1\<lparr>assets := a\<rparr>, Inr ()))
               else (w1\<lparr>assets := (assets w1)(outputKey \<mapsto> outputFile)\<rparr>, Inr ())))"

definition error_entry :: "string \<Rightarrow> string \<Rightarrow> string" where
  "error_entry relativeFilePath error = ''./'' @ relativeFilePath @ newline @ newline @ error"

text \<open>
  The callback of \<^verbatim>\<open>files.map\<close> for one directory entry. The second component is the
  rejection of the callback's promise: only \<^verbatim>\<open>fs.stat\<close> is outside the \<^verbatim>\<open>try\<close>.
\<close>

definition processEntry :: "host \<Rightarrow> options \<Rightarrow> string \<Rightarrow> world \<Rightarrow> world \<times> string option" where
  "processEntry h opts file w =
     (let fileLocation = path_resolve h (from_liquid opts) file in
      case stat_isFile h fileLocation of
        Inl e \<Rightarrow> (w, Some e)
      | Inr isFile \<Rightarrow>
          if isFile \<and> path_extname h file = ''.liquid'' then
            (let relativeFilePath = path_relative h (options_context opts) fileLocation;
                 outputKey = getOutputKey h opts fileLocation (outputPath opts)
             in case transformFile h opts fileLocation outputKey w of
                  (w1, Inl error) \<Rightarrow>
                    (w1\<lparr>errors := errors w1 @ [error_entry relativeFilePath error]\<rparr>, None)
                | (w1, Inr u) \<Rightarrow> (w1, None))
          else (w, None))"

text \<open>
  \<^verbatim>\<open>Promise.all(files.map(...))\<close>. The pipelines of the entries are run one after the
  other in the order of the list; every callback runs, and the batch is rejected when one of
  them is.
\<close>

fun processEntries :: "host \<Rightarrow> options \<Rightarrow> string list \<Rightarrow> world \<Rightarrow> world \<times> string option" where
  "processEntries h opts [] w = (w, None)"
| "processEntries h opts (file # files) w =
     (case processEntry h opts file w of
        (w1, r1) \<Rightarrow>
          (case processEntries h opts files w1 of
             (w2, r2) \<Rightarrow> (w2, (case r1 of Some e \<Rightarrow> Some e | None \<Rightarrow> r2))))"

text \<open>One round of the \<^verbatim>\<open>forEach\<close> of the \<^verbatim>\<open>then\<close> callback.\<close>

definition evict :: "host \<Rightarrow> string \<Rightarrow> world \<Rightarrow> world" where
  "evict h module w =
     w\<lparr>contextDependencies := insert (path_dirname h module) (contextDependencies w),
       fileDependencies := insert module (fileDependencies w),
       require_cache := filter (\<lambda>kv. fst kv \<noteq> module) (require_cache w),
       trace := trace w @ [ContextDependencyAdded (path_dirname h module)]\<rparr>"

text \<open>Lines 41 and 42.\<close>

definition register_roots :: "options \<Rightarrow> world \<Rightarrow> world" where
  "register_roots opts w =
     w\<lparr>contextDependencies :=
         insert (from_schema opts) (insert (from_liquid opts) (contextDependencies w)),
       trace := trace w @ [ContextDependencyAdded (from_liquid opts),
                           ContextDependencyAdded (from_schema opts)]\<rparr>"

text \<open>
  The call of \<^verbatim>\<open>files.map\<close> on line 47 starts the callback of every entry, in the order
  of the listing; each callback runs up to its first \<^verbatim>\<open>await\<close>, and what follows is the
  pipeline that \<open>processEntries\<close> runs.
\<close>

definition start_callbacks :: "string list \<Rightarrow> world \<Rightarrow> world" where
  "start_callbacks files w = w\<lparr>trace := trace w @ map EntryStarted files\<rparr>"

definition buildSchema :: "host \<Rightarrow> options \<Rightarrow> world \<Rightarrow> world \<times> string option" where
  "buildSchema h opts w =
     (case readdir h (from_liquid opts) of
        Inl e \<Rightarrow> (w, Some e)
      | Inr files \<Rightarrow>
          (let w1 = register_roots opts w;
               preTransformCache = map fst (require_cache w1)
           in case processEntries h opts files (start_callbacks files w1) of
                (w2, Some e) \<Rightarrow> (w2, Some e)
              | (w2, None) \<Rightarrow>
                  (let postTransformCache = map fst (require_cache w2)
                   in (fold (evict h)
                         (filter (\<lambda>module. module \<notin> set preTransformCache) postTransformCache)
                         w2,
                       None))))"

section \<open>A concrete host and concrete inputs\<close>

text \<open>
  A small host on which the model can be run: all paths are POSIX paths below \<^verbatim>\<open>/p\<close>, the
  files, the modules and the behaviour of \<^verbatim>\<open>JSON\<close> are given by tables.
\<close>

definition last_segment :: "string \<Rightarrow> string" where
  "last_segment p = rev (takeWhile (\<lambda>c. c \<noteq> CHR ''/'') (rev p))"

definition sample_basename :: "string \<Rightarrow> string \<Rightarrow> string" where
  "sample_basename p ext =
     (let seg = last_segment p
      in if drop (length seg - length ext) seg = ext then take (length seg - length ext) seg
         else seg)"

definition sample_extname :: "string \<Rightarrow> string" where
  "sample_extname f =
     (if CHR ''.'' \<in> set f then CHR ''.'' # rev (takeWhile (\<lambda>c. c \<noteq> CHR ''.'') (rev f)) else [])"

definition sample_dirname :: "string \<Rightarrow> string" where
  "sample_dirname p = rev (drop 1 (dropWhile (\<lambda>c. c \<noteq> CHR ''/'') (rev p)))"

definition table :: "('a \<times> 'b) list \<Rightarrow> string \<Rightarrow> 'a \<Rightarrow> string + 'b" where
  "table t err k = (case map_of t k of Some v \<Rightarrow> Inr v | None \<Rightarrow> Inl err)"

definition sample_host ::
  "string list \<Rightarrow> (string \<times> string) list \<Rightarrow> (string \<times> (string + jsval)) list
     \<Rightarrow> (string \<times> jsval) list \<Rightarrow> (jsval \<times> string) list \<Rightarrow> host" where
  "sample_host listing files modules json texts =
     \<lparr>readdir = (\<lambda>d. if d = ''/p/liquid'' then Inr listing
                       else Inl ''Error: ENOENT: no such file or directory, scandir''),
      stat_isFile = (\<lambda>p. if p \<in> set (map fst files) then Inr True
                           else Inl ''Error: ENOENT: no such file or directory, stat''),
      readFile = table files ''Error: ENOENT: no such file or directory, open'',
      path_resolve = (\<lambda>a b. a @ ''/'' @ b),
      path_relative = (\<lambda>a b. drop (Suc (length a)) b),
      path_join = (\<lambda>a b. a @ ''/'' @ b),
      path_basename = sample_basename,
      path_extname = sample_extname,
      path_dirname = sample_dirname,
      require_resolve = (\<lambda>p. if p @ ''.js'' \<in> set (map fst modules) then Inr (p @ ''.js'')
                               else Inl (''Error: Cannot find module '' @ p)),
      module_load = (\<lambda>f. ([], (case map_of modules f of Some r \<Rightarrow> r
                                  | None \<Rightarrow> Inl ''Error: ENOENT''))),
      call_function = (\<lambda>f name arg. Inr (VObj [(''name'', VStr name), (''settings'', arg)])),
      function_source = (\<lambda>f. ''function () {}''),
      JSON_parse = table json ''SyntaxError: Unexpected token'',
      JSON_stringify = table texts ''TypeError: Converting circular structure to JSON''\<rparr>"

definition sample_options :: options where
  "sample_options =
     \<lparr>from_liquid = ''/p/liquid'', from_schema = ''/p/schema'', to_path = ''/p/out/sections'',
      outputPath = ''/p/out'', options_context = ''/p''\<rparr>"

definition empty_world :: world where
  "empty_world =
     \<lparr>assets = Map.empty, errors = [], contextDependencies = {}, fileDependencies = {},
      require_cache = [], calls = [], trace = []\<rparr>"


definition dq :: string where
  "dq = [CHR 0x22]"

text \<open>A template whose schema module lies in a subdirectory and exports an empty object,
  and an entry \<^verbatim>\<open>broken\<close> on which \<^verbatim>\<open>fs.stat\<close> fails (a dangling symbolic link).\<close>

definition host_sub :: "string list \<Rightarrow> host" where
  "host_sub listing =
     sample_host listing
       [(''/p/liquid/a.liquid'', ''{% schema 'sub/m' %}'')]
       [(''/p/schema/sub/m.js'', Inr (VObj []))]
       []
       [(VObj [], ''{}'')]"


text \<open>A host with the single template \<^verbatim>\<open>a.liquid\<close> and one schema module \<^verbatim>\<open>m.js\<close>.\<close>

definition host_module :: "string \<Rightarrow> jsval \<Rightarrow> (string \<times> jsval) list \<Rightarrow> (jsval \<times> string) list \<Rightarrow> host" where
  "host_module content exports json texts =
     sample_host [''a.liquid'']
       [(''/p/liquid/a.liquid'', content)]
       [(''/p/schema/m.js'', Inr exports)]
       json texts"

text \<open>The module exports the array \<^verbatim>\<open>[1]\<close>.\<close>

definition host_array :: host where
  "host_array =
     host_module ''{% schema 'm' %}'' (VArr [VNum 1]) []
       [(VArr [VNum 1], ''['' @ newline @ ''    1'' @ newline @ '']'')]"

text \<open>Two templates: \<^verbatim>\<open>a.liquid\<close>, whose schema module exports the number 5, and
  \<^verbatim>\<open>b.liquid\<close> without any directive.\<close>

definition host_number :: host where
  "host_number =
     sample_host [''a.liquid'', ''b.liquid'']
       [(''/p/liquid/a.liquid'', ''{% schema 'm' %}''), (''/p/liquid/b.liquid'', ''plain'')]
       [(''/p/schema/m.js'', Inr (VNum 5))]
       [] []"

text \<open>The template names a module that does not exist.\<close>

definition host_missing :: host where
  "host_missing =
     sample_host [''a.liquid'']
       [(''/p/liquid/a.liquid'', ''{% schema 'missing' %}'')]
       [] [] []"

text \<open>The module exports a function, and the directive has the inline body \<^verbatim>\<open>{}\<close>.\<close>

definition host_generator :: host where
  "host_generator =
     host_module ''{% schema 'm' %}{}{% endschema %}'' (VFun 0)
       [(''{}'', VObj [])]
       [(VObj [(''name'', VStr ''a''), (''settings'', VObj [])],
         ''{'' @ newline @ ''    '' @ dq @ ''name'' @ dq @ '': '' @ dq @ ''a'' @ dq @ '',''
         @ newline @ ''    '' @ dq @ ''settings'' @ dq @ '': {}'' @ newline @ ''}'')]"

text \<open>Templates with a duplicate directive; \<^verbatim>\<open>JSON.parse\<close> is tabulated on the two
  rule texts \<^verbatim>\<open>["red"]\<close> and \<^verbatim>\<open>["red","blue"]\<close>.\<close>

definition rules_red :: string where
  "rules_red = ''['' @ dq @ ''red'' @ dq @ '']''"

definition rules_red_blue :: string where
  "rules_red_blue = ''['' @ dq @ ''red'' @ dq @ '','' @ dq @ ''blue'' @ dq @ '']''"

definition duplicate_block :: "string \<Rightarrow> string" where
  "duplicate_block body = ''{% duplicate %}'' @ body @ ''{% endduplicate %}''"

definition host_duplicate :: "string \<Rightarrow> host" where
  "host_duplicate content =
     sample_host [''a.liquid'']
       [(''/p/liquid/a.liquid'', content)]
       []
       [(rules_red, VArr [VStr ''red'']),
        (rules_red_blue, VArr [VStr ''red'', VStr ''blue''])]
       []"

definition template_red_blue :: string where
  "template_red_blue =
     duplicate_block rules_red_blue @ newline @ newline @ ''<h1>-{{title_section}}-</h1>''"

definition template_two_tokens :: string where
  "template_two_tokens =
     duplicate_block rules_red @ newline @ newline
     @ ''<h1>-{{title_section}}-</h1><p>-{{title_section}}-</p>''"

definition template_no_blank_line :: string where
  "template_no_blank_line =
     duplicate_block rules_red @ newline @ ''<h1>-{{title_section}}-</h1>''"

definition template_empty_rules :: string where
  "template_empty_rules = duplicate_block [] @ newline @ newline @ ''<h1>x</h1>''"

section \<open>Frame and bookkeeping lemmas\<close>

lemma require_keeps:
  "require h p w = (w', r) \<Longrightarrow>
     assets w' = assets w \<and> errors w' = errors w \<and> calls w' = calls w
     \<and> contextDependencies w' = contextDependencies w
     \<and> fileDependencies w' = fileDependencies w"
  by (auto simp: require_def split: sum.splits option.splits prod.splits)

lemma effective_schema_keeps:
  "effective_schema h v n c w = (w', r) \<Longrightarrow>
     assets w' = assets w \<and> errors w' = errors w
     \<and> contextDependencies w' = contextDependencies w
     \<and> fileDependencies w' = fileDependencies w
     \<and> require_cache w' = require_cache w"
  by (auto simp: effective_schema_def split: jsval.splits)

lemma replaceSchemaTags_keeps:
  assumes "replaceSchemaTags h opts loc w = (w', r)"
  shows "assets w' = assets w \<and> errors w' = errors w
     \<and> contextDependencies w' = contextDependencies w"
  using assms
  unfolding replaceSchemaTags_def Let_def
  by (auto split: sum.splits option.splits prod.splits if_splits
      dest!: require_keeps effective_schema_keeps)

lemma find_first_infix: "find_first pat pre (x @ pat @ y) \<noteq> None"
proof (induction x arbitrary: pre)
  case Nil
  have t: "take (length pat) (pat @ y) = pat" by simp
  show ?case
  proof (cases "pat @ y")
    case Nil
    then show ?thesis by simp
  next
    case (Cons a list)
    with t show ?thesis by simp
  qed
next
  case (Cons a x)
  then show ?case by simp
qed

lemma contains_infix: "contains (x @ pat @ y) pat"
  by (simp add: contains_def find_first_infix)

lemma processEntries_append:
  "processEntries h opts (xs @ ys) w =
     (case processEntries h opts xs w of
        (w1, r1) \<Rightarrow>
          (case processEntries h opts ys w1 of
             (w2, r2) \<Rightarrow> (w2, (case r1 of Some e \<Rightarrow> Some e | None \<Rightarrow> r2))))"
  by (induction xs arbitrary: w) (auto split: prod.splits option.splits)





lemma fold_evict_ctx: "contextDependencies w \<subseteq> contextDependencies (fold (evict h) ms w)"
proof (induction ms arbitrary: w)
  case Nil
  show ?case by simp
next
  case (Cons m ms)
  have "contextDependencies w \<subseteq> contextDependencies (evict h m w)"
    by (auto simp: evict_def)
  with Cons.IH [of "evict h m w"] show ?case by auto
qed

lemma fold_evict_files: "fileDependencies w \<subseteq> fileDependencies (fold (evict h) ms w)"
proof (induction ms arbitrary: w)
  case Nil
  show ?case by simp
next
  case (Cons m ms)
  have "fileDependencies w \<subseteq> fileDependencies (evict h m w)"
    by (auto simp: evict_def)
  with Cons.IH [of "evict h m w"] show ?case by auto
qed

lemma fold_evict_cache:
  "fst ` set (require_cache (fold (evict h) ms w)) = fst ` set (require_cache w) - set ms"
proof (induction ms arbitrary: w)
  case Nil
  show ?case by simp
next
  case (Cons m ms)
  have "fst ` set (require_cache (evict h m w)) = fst ` set (require_cache w) - {m}"
    by (auto simp: evict_def)
  with Cons.IH [of "evict h m w"] show ?case by auto
qed

lemma fold_evict_member:
  "M \<in> set ms \<Longrightarrow>
     M \<in> fileDependencies (fold (evict h) ms w)
     \<and> path_dirname h M \<in> contextDependencies (fold (evict h) ms w)"
proof (induction ms arbitrary: w)
  case Nil
  then show ?case by simp
next
  case (Cons m ms)
  show ?case
  proof (cases "M = m")
    case True
    have "M \<in> fileDependencies (evict h m w)"
      and "path_dirname h M \<in> contextDependencies (evict h m w)"
      using True by (simp_all add: evict_def)
    then show ?thesis
      using fold_evict_files [of "evict h m w" h ms] fold_evict_ctx [of "evict h m w" h ms]
      by auto
  next
    case False
    with Cons.prems have "M \<in> set ms" by simp
    from Cons.IH [OF this, of "evict h m w"] show ?thesis by simp
  qed
qed

lemma require_uncached:
  assumes "M \<notin> fst ` set (require_cache w)" and "require_resolve h p = Inr M"
  shows "snd (require h p w) = snd (module_load h M)"
proof -
  from assms(1) have "map_of (require_cache w) M = None"
    by (simp add: map_of_eq_None_iff)
  with assms(2) show ?thesis
    by (simp add: require_def split: prod.splits sum.splits)
qed

lemma require_trace:
  "require h p (w\<lparr>trace := t\<rparr>) = (case require h p w of (w', r) \<Rightarrow> (w'\<lparr>trace := t\<rparr>, r))"
  by (simp add: require_def split: sum.splits option.splits prod.splits)

lemma require_trace_files:
  "require h p (w\<lparr>trace := t, fileDependencies := F\<rparr>)
     = (case require h p (w\<lparr>fileDependencies := F\<rparr>) of (w', r) \<Rightarrow> (w'\<lparr>trace := t\<rparr>, r))"
proof -
  have "w\<lparr>trace := t, fileDependencies := F\<rparr> = (w\<lparr>fileDependencies := F\<rparr>)\<lparr>trace := t\<rparr>"
    by (cases w) simp
  then show ?thesis by (simp only: require_trace)
qed

lemma effective_schema_trace:
  "effective_schema h v n c (w\<lparr>trace := t\<rparr>)
     = (case effective_schema h v n c w of (w', r) \<Rightarrow> (w'\<lparr>trace := t\<rparr>, r))"
  by (simp add: effective_schema_def split: jsval.splits)

lemma replaceSchemaTags_trace:
  "replaceSchemaTags h opts loc (w\<lparr>trace := t\<rparr>)
     = (case replaceSchemaTags h opts loc w of (w', r) \<Rightarrow> (w'\<lparr>trace := t\<rparr>, r))"
  unfolding replaceSchemaTags_def Let_def
  by (auto simp: require_trace_files effective_schema_trace
        split: sum.splits option.splits prod.splits)

lemma transformFile_trace:
  "transformFile h opts loc key (w\<lparr>trace := t\<rparr>)
     = (case transformFile h opts loc key w of (w', r) \<Rightarrow> (w'\<lparr>trace := t\<rparr>, r))"
  unfolding transformFile_def
  by (auto simp: replaceSchemaTags_trace split: sum.splits prod.splits)

lemma processEntry_trace:
  "processEntry h opts file (w\<lparr>trace := t\<rparr>)
     = (case processEntry h opts file w of (w', r) \<Rightarrow> (w'\<lparr>trace := t\<rparr>, r))"
  unfolding processEntry_def Let_def
  by (auto simp: transformFile_trace split: sum.splits prod.splits)

lemma processEntries_trace:
  "processEntries h opts files (w\<lparr>trace := t\<rparr>)
     = (case processEntries h opts files w of (w', r) \<Rightarrow> (w'\<lparr>trace := t\<rparr>, r))"
  by (induction files arbitrary: w) (auto simp: processEntry_trace split: prod.splits)

lemma processEntries_started:
  "processEntries h opts files (start_callbacks files w)
     = (case processEntries h opts files w of
          (w2, r) \<Rightarrow> (w2\<lparr>trace := trace w @ map EntryStarted files\<rparr>, r))"
  by (simp add: start_callbacks_def processEntries_trace)


lemma buildSchema_fulfilled:
  assumes "readdir h (from_liquid opts) = Inr files"
    and "processEntries h opts files (register_roots opts w) = (w2, None)"
  shows "buildSchema h opts w =
     (fold (evict h)
        (filter (\<lambda>module. module \<notin> set (map fst (require_cache (register_roots opts w))))
           (map fst (require_cache w2)))
        (w2\<lparr>trace := trace (register_roots opts w) @ map EntryStarted files\<rparr>), None)"
  using assms by (simp add: buildSchema_def Let_def processEntries_started)

lemma buildSchema_rejected:
  assumes "readdir h (from_liquid opts) = Inr files"
    and "processEntries h opts files (register_roots opts w) = (w2, Some e)"
  shows "buildSchema h opts w =
     (w2\<lparr>trace := trace (register_roots opts w) @ map EntryStarted files\<rparr>, Some e)"
  using assms by (simp add: buildSchema_def Let_def processEntries_started)

lemma error_entry_carries_error: "contains (error_entry rel e) e"
proof -
  have "error_entry rel e = (''./'' @ rel @ newline @ newline) @ e @ []"
    by (simp add: error_entry_def)
  then show ?thesis using contains_infix [of "''./'' @ rel @ newline @ newline" e "[]"] by simp
qed

lemma duplicatedFiles_truthy:
  assumes "truthy rules"
    and "duplicatedFiles h opts out rules body a = Inr a'"
  shows "\<exists>names. rules = VArr names \<and> a' = fold (add_variant h opts out body) names a"
  using assms by (auto simp: duplicatedFiles_def split: jsval.splits)

lemma replaceSchemaTags_resolved:
  assumes "readFile h loc = Inr fileContents"
    and "regex_exec replaceableSchemaRegex fileContents = Some m"
    and "groups m 1 = Some literal"
    and "require_resolve h (path_resolve h (from_schema opts) (strip_quotes literal)) = Inr resolved"
    and "require h (path_resolve h (from_schema opts) (strip_quotes literal))
           (w\<lparr>fileDependencies := insert resolved (fileDependencies w)\<rparr>) = (w2, Inr importedSchema)"
    and "effective_schema h importedSchema (path_basename h loc ''.liquid'')
           (parse_contents h (groups m 3)) w2 = (w3, r)"
  shows "replaceSchemaTags h opts loc w =
     (w3, case r of
            Inl e \<Rightarrow> Inl e
          | Inr schema \<Rightarrow>
              if typeof schema \<noteq> ''object'' then Inl (type_error_message h schema resolved)
              else (case JSON_stringify h schema of
                      Inl e \<Rightarrow> Inl e
                    | Inr text \<Rightarrow>
                        Inr (regex_replace replaceableSchemaRegex fileContents
                               (asString [''{% schema %}'', text, ''{% endschema %}'']))))"
  using assms unfolding replaceSchemaTags_def Let_def
  by (simp split: sum.splits)

lemma transformFile_resolution_error:
  assumes "replaceSchemaTags h opts loc w = (w1, Inl e)"
  shows "transformFile h opts loc key w = (w1, Inl e)"
  using assms by (simp add: transformFile_def)

lemma processEntry_template:
  assumes "stat_isFile h (path_resolve h (from_liquid opts) file) = Inr True"
    and "path_extname h file = ''.liquid''"
    and "transformFile h opts (path_resolve h (from_liquid opts) file)
           (getOutputKey h opts (path_resolve h (from_liquid opts) file) (outputPath opts)) w
         = (w1, r)"
  shows "processEntry h opts file w =
     (case r of
        Inl error \<Rightarrow>
          (w1\<lparr>errors := errors w1
                 @ [error_entry (path_relative h (options_context opts)
                                   (path_resolve h (from_liquid opts) file)) error]\<rparr>, None)
      | Inr u \<Rightarrow> (w1, None))"
  using assms unfolding processEntry_def Let_def
  by (simp split: sum.splits)

lemma processEntries_split:
  assumes "processEntries h opts pre w = (w0, r0)"
    and "processEntry h opts file w0 = (w1, None)"
  shows "processEntries h opts (pre @ file # post) w =
     (case processEntries h opts post w1 of
        (w', r') \<Rightarrow> (w', (case r0 of Some e \<Rightarrow> Some e | None \<Rightarrow> r')))"
  using assms by (simp add: processEntries_append split: prod.splits)

lemma error_entry_names_file: "contains (error_entry rel e) rel"
proof -
  have "error_entry rel e = ''./'' @ rel @ (newline @ newline @ e)"
    by (simp add: error_entry_def)
  then show ?thesis using contains_infix [of "''./''" rel "newline @ newline @ e"] by simp
qed

lemma type_error_names_module: "contains (error_entry rel (type_error_message h schema resolved)) resolved"
proof -
  have "error_entry rel (type_error_message h schema resolved)
      = (''./'' @ rel @ newline @ newline @ join_element h schema @ newline @ ''^'' @ newline
          @ ''      Schema expected to be of type '' @ [CHR 0x22] @ ''object'' @ [CHR 0x22]
          @ newline @ ''      in '') @ resolved @ []"
    by (simp add: error_entry_def type_error_message_def)
  then show ?thesis
    using contains_infix [of _ resolved "[]"] by metis
qed

lemma add_variant_dom:
  "dom (add_variant h opts out body v a)
     = insert (getOutputKeyByFileName h opts (to_string h v @ ''.liquid'') out) (dom a)"
  by (simp add: add_variant_def Let_def)

lemma fold_add_variant_dom:
  "dom (fold (add_variant h opts out body) vs a)
     = dom a \<union> (\<lambda>v. getOutputKeyByFileName h opts (to_string h v @ ''.liquid'') out) ` set vs"
  by (induction vs arbitrary: a) (auto simp: add_variant_dom)

lemma fold_add_variant_other:
  "k \<notin> (\<lambda>v. getOutputKeyByFileName h opts (to_string h v @ ''.liquid'') out) ` set vs
     \<Longrightarrow> fold (add_variant h opts out body) vs a k = a k"
  by (induction vs arbitrary: a) (auto simp: add_variant_def Let_def)

lemma fold_add_variant_grows:
  "dom a \<subseteq> dom (fold (add_variant h opts out body) vs a)"
  by (simp add: fold_add_variant_dom)

lemma duplicatedFiles_dom:
  assumes "duplicatedFiles h opts out rules body a = Inr a'"
  shows "dom a \<subseteq> dom a'"
proof -
  from assms have "a' = a \<or> (\<exists>vs. a' = fold (add_variant h opts out body) vs a)"
    by (auto simp: duplicatedFiles_def split: if_splits jsval.splits)
  then show ?thesis
    by (elim disjE exE) (simp_all add: fold_add_variant_grows)
qed

lemma transformFile_rules_error:
  assumes "replaceSchemaTags h opts loc w = (w1, Inr outputFile)"
    and "getDuplicateRules h outputFile = Inl e"
  shows "transformFile h opts loc key w = (w1, Inl e)"
  using assms by (simp add: transformFile_def)

lemma transformFile_duplicate:
  assumes "replaceSchemaTags h opts loc w = (w1, Inr outputFile)"
    and "getDuplicateRules h outputFile = Inr rules"
    and "truthy rules"
  shows "transformFile h opts loc key w =
     (case duplicatedFiles h opts (outputPath opts) rules (cleanDupicateTag outputFile) (assets w1) of
        Inl e \<Rightarrow> (w1, Inl e)
      | Inr a \<Rightarrow> (w1\<lparr>assets := a\<rparr>, Inr ()))"
  using assms by (simp add: transformFile_def)

lemma transformFile_single:
  assumes "replaceSchemaTags h opts loc w = (w1, Inr outputFile)"
    and "getDuplicateRules h outputFile = Inr rules"
    and "\<not> truthy rules"
  shows "transformFile h opts loc key w =
     (w1\<lparr>assets := (assets w1)(key \<mapsto> outputFile)\<rparr>, Inr ())"
  using assms by (simp add: transformFile_def)

lemma transformFile_grows:
  assumes "transformFile h opts loc key w = (w', r)"
  shows "dom (assets w) \<subseteq> dom (assets w') \<and> errors w' = errors w"
proof -
  obtain w1 r1 where a: "replaceSchemaTags h opts loc w = (w1, r1)"
    by (cases "replaceSchemaTags h opts loc w")
  from replaceSchemaTags_keeps [OF a]
  have k: "assets w1 = assets w" "errors w1 = errors w" by simp_all
  have "dom (assets w1) \<subseteq> dom (assets w') \<and> errors w' = errors w1"
  proof (cases r1)
    case (Inl e)
    with a assms show ?thesis by (simp add: transformFile_resolution_error)
  next
    case (Inr outputFile)
    note a' = a [unfolded Inr]
    show ?thesis
    proof (cases "getDuplicateRules h outputFile")
      case (Inl e)
      from transformFile_rules_error [OF a' Inl, of key] assms show ?thesis by simp
    next
      case rules: (Inr rules)
      show ?thesis
      proof (cases "truthy rules")
        case False
        from transformFile_single [OF a' rules False, of key] assms show ?thesis by auto
      next
        case True
        note t = transformFile_duplicate [OF a' rules True, of key]
        show ?thesis
        proof (cases "duplicatedFiles h opts (outputPath opts) rules
                        (cleanDupicateTag outputFile) (assets w1)")
          case (Inl e)
          with t assms show ?thesis by simp
        next
          case (Inr a2)
          from duplicatedFiles_dom [OF Inr] t assms Inr show ?thesis by auto
        qed
      qed
    qed
  qed
  with k show ?thesis by simp
qed

lemma processEntry_grows:
  assumes "processEntry h opts file w = (w', r)"
  shows "dom (assets w) \<subseteq> dom (assets w') \<and> set (errors w) \<subseteq> set (errors w')"
proof -
  let ?loc = "path_resolve h (from_liquid opts) file"
  obtain w1 r1 where a:
    "transformFile h opts ?loc (getOutputKey h opts ?loc (outputPath opts)) w = (w1, r1)"
    by (cases "transformFile h opts ?loc (getOutputKey h opts ?loc (outputPath opts)) w")
  from transformFile_grows [OF a]
  have "dom (assets w) \<subseteq> dom (assets w1)" "errors w1 = errors w" by simp_all
  with a assms show ?thesis
    unfolding processEntry_def Let_def
    by (auto split: sum.splits if_splits)
qed

lemma processEntries_grows:
  "processEntries h opts files w = (w', r)
     \<Longrightarrow> dom (assets w) \<subseteq> dom (assets w') \<and> set (errors w) \<subseteq> set (errors w')"
proof (induction files arbitrary: w w' r)
  case Nil
  then show ?case by simp
next
  case (Cons f fs)
  obtain w1 r1 where p1: "processEntry h opts f w = (w1, r1)"
    by (cases "processEntry h opts f w")
  obtain w2 r2 where p2: "processEntries h opts fs w1 = (w2, r2)"
    by (cases "processEntries h opts fs w1")
  from Cons.prems p1 p2 have "w' = w2" by simp
  with processEntry_grows [OF p1] Cons.IH [OF p2] show ?case by blast
qed

lemma getDuplicateRules_body:
  assumes "regex_exec duplicateRulesRegex content = Some m" and "groups m 1 = Some body"
  shows "getDuplicateRules h content = (if body \<noteq> [] then JSON_parse h body else Inr (VStr []))"
  using assms by (simp add: getDuplicateRules_def)

lemma getDuplicateRules_absent:
  assumes "regex_exec duplicateRulesRegex content = None"
  shows "getDuplicateRules h content = Inr (VStr [])"
  using assms by (simp add: getDuplicateRules_def)

section \<open>The claims\<close>

subsection \<open>C1: a schema that is not an object\<close>

text \<open>
  C1, as amended. In a batch, take a template whose schema directive resolves to an effective
  schema (the exports of the module, or what the exported function returns) whose
  \<^verbatim>\<open>typeof\<close> is not \<^verbatim>\<open>object\<close>: a number, a string, a boolean, undefined or a function.
  Then \<open>replaceSchemaTags\<close> throws the type error message, which names the resolved module
  path; the entry of the error list also names the relative path of the template; the
  template adds exactly this one entry to the error list and leaves the assets as they were;
  and the entries after it are processed from the world it leaves.
\<close>

theorem non_object_schema_is_one_error:
  assumes "processEntries h opts pre w = (w0, r0)"
    and "stat_isFile h (path_resolve h (from_liquid opts) file) = Inr True"
    and "path_extname h file = ''.liquid''"
    and "readFile h (path_resolve h (from_liquid opts) file) = Inr fileContents"
    and "regex_exec replaceableSchemaRegex fileContents = Some m"
    and "groups m 1 = Some literal"
    and "require_resolve h (path_resolve h (from_schema opts) (strip_quotes literal)) = Inr resolved"
    and "require h (path_resolve h (from_schema opts) (strip_quotes literal))
           (w0\<lparr>fileDependencies := insert resolved (fileDependencies w0)\<rparr>) = (w2, Inr importedSchema)"
    and "effective_schema h importedSchema
           (path_basename h (path_resolve h (from_liquid opts) file) ''.liquid'')
           (parse_contents h (groups m 3)) w2 = (w3, Inr schema)"
    and "typeof schema \<noteq> ''object''"
  shows "\<exists>entry.
       entry = error_entry (path_relative h (options_context opts)
                              (path_resolve h (from_liquid opts) file))
                 (type_error_message h schema resolved)
     \<and> contains entry resolved
     \<and> contains entry (path_relative h (options_context opts)
                          (path_resolve h (from_liquid opts) file))
     \<and> replaceSchemaTags h opts (path_resolve h (from_liquid opts) file) w0
         = (w3, Inl (type_error_message h schema resolved))
     \<and> processEntry h opts file w0 = (w3\<lparr>errors := errors w0 @ [entry]\<rparr>, None)
     \<and> assets w3 = assets w0
     \<and> processEntries h opts (pre @ file # post) w =
         (case processEntries h opts post (w3\<lparr>errors := errors w0 @ [entry]\<rparr>) of
            (w', r') \<Rightarrow> (w', (case r0 of Some e \<Rightarrow> Some e | None \<Rightarrow> r')))"
proof -
  let ?loc = "path_resolve h (from_liquid opts) file"
  let ?rel = "path_relative h (options_context opts) ?loc"
  let ?entry = "error_entry ?rel (type_error_message h schema resolved)"
  have res: "replaceSchemaTags h opts ?loc w0 = (w3, Inl (type_error_message h schema resolved))"
    using replaceSchemaTags_resolved [OF assms(4-9)] assms(10) by simp
  from replaceSchemaTags_keeps [OF res]
  have keep: "assets w3 = assets w0" "errors w3 = errors w0" by simp_all
  have entry: "processEntry h opts file w0 = (w3\<lparr>errors := errors w0 @ [?entry]\<rparr>, None)"
    using processEntry_template [OF assms(2,3) transformFile_resolution_error [OF res]] keep
    by simp
  have batch: "processEntries h opts (pre @ file # post) w =
         (case processEntries h opts post (w3\<lparr>errors := errors w0 @ [?entry]\<rparr>) of
            (w', r') \<Rightarrow> (w', (case r0 of Some e \<Rightarrow> Some e | None \<Rightarrow> r')))"
    by (rule processEntries_split [OF assms(1) entry])
  have names: "contains ?entry resolved" "contains ?entry ?rel"
    by (rule type_error_names_module, rule error_entry_names_file)
  show ?thesis
    by (rule exI [where x = ?entry]) (simp only: res keep(1) entry batch names simp_thms)
qed

theorem non_object_schema_is_one_error_witness:
  "typeof (VNum 5) \<noteq> ''object''
   \<and> errors (fst (processEntry host_number sample_options ''a.liquid'' empty_world))
       = [error_entry ''liquid/a.liquid'' (type_error_message host_number (VNum 5) ''/p/schema/m.js'')]
   \<and> assets (fst (processEntry host_number sample_options ''a.liquid'' empty_world)) = Map.empty
   \<and> snd (processEntry host_number sample_options ''a.liquid'' empty_world) = None"
proof -
  let ?h = host_number and ?o = sample_options
  let ?loc = "''/p/liquid/a.liquid''"
  let ?ip = "''/p/schema/m''"
  let ?m = "the (regex_exec replaceableSchemaRegex ''{% schema 'm' %}'')"
  let ?w1 = "empty_world\<lparr>fileDependencies := insert ''/p/schema/m.js'' (fileDependencies empty_world)\<rparr>"
  let ?w2 = "fst (require ?h ?ip ?w1)"
  have p: "path_resolve ?h (from_liquid ?o) ''a.liquid'' = ?loc"
      "path_resolve ?h (from_schema ?o) (strip_quotes [CHR 0x27, CHR ''m'', CHR 0x27]) = ?ip"
      "path_relative ?h (options_context ?o) ?loc = ''liquid/a.liquid''"
      "path_basename ?h ?loc ''.liquid'' = ''a''"
    by code_simp+
  have 1: "processEntries ?h ?o [] empty_world = (empty_world, None)" by simp
  have 2: "stat_isFile ?h (path_resolve ?h (from_liquid ?o) ''a.liquid'') = Inr True" by code_simp
  have 3: "path_extname ?h ''a.liquid'' = ''.liquid''" by code_simp
  have 4: "readFile ?h (path_resolve ?h (from_liquid ?o) ''a.liquid'') = Inr ''{% schema 'm' %}''" by code_simp
  have 5: "regex_exec replaceableSchemaRegex ''{% schema 'm' %}'' = Some ?m"
  proof -
    have "regex_exec replaceableSchemaRegex ''{% schema 'm' %}'' \<noteq> None" by code_simp
    then show ?thesis by simp
  qed
  have 6: "groups ?m 1 = Some [CHR 0x27, CHR ''m'', CHR 0x27]" by code_simp
  have 7: "require_resolve ?h (path_resolve ?h (from_schema ?o) (strip_quotes [CHR 0x27, CHR ''m'', CHR 0x27])) = Inr ''/p/schema/m.js''"
    by code_simp
  have "snd (require ?h ?ip ?w1) = Inr (VNum 5)" by code_simp
  then have 8: "require ?h (path_resolve ?h (from_schema ?o) (strip_quotes [CHR 0x27, CHR ''m'', CHR 0x27]))
      (empty_world\<lparr>fileDependencies := insert ''/p/schema/m.js'' (fileDependencies empty_world)\<rparr>)
      = (?w2, Inr (VNum 5))"
    by (simp only: p) (simp add: prod_eq_iff)
  have 9: "effective_schema ?h (VNum 5) (path_basename ?h (path_resolve ?h (from_liquid ?o) ''a.liquid'') ''.liquid'')
      (parse_contents ?h (groups ?m 3)) ?w2 = (?w2, Inr (VNum 5))"
    by (simp add: effective_schema_def)
  have 10: "typeof (VNum 5) \<noteq> ''object''" by simp
  from non_object_schema_is_one_error [OF 1 2 3 4 5 6 7 8 9 10, of "[]"]
  have "processEntry ?h ?o ''a.liquid'' empty_world =
      (?w2\<lparr>errors := errors empty_world
          @ [error_entry ''liquid/a.liquid'' (type_error_message ?h (VNum 5) ''/p/schema/m.js'')]\<rparr>,
       None)"
    and "assets ?w2 = assets empty_world"
    by (simp_all add: p)
  with 10 show ?thesis by (simp add: empty_world_def)
qed

text \<open>
  As stated, with an array as an example of a value that is not a mapping, the claim fails:
  \<^verbatim>\<open>typeof\<close> of an array (and of null) is \<^verbatim>\<open>object\<close>, so the check of line 180 lets it
  through, no error is reported and the asset is emitted.
\<close>

theorem array_schema_is_emitted_counterexample:
  "snd (module_load host_array ''/p/schema/m.js'') = Inr (VArr [VNum 1])
   \<and> errors (fst (processEntry host_array sample_options ''a.liquid'' empty_world)) = []
   \<and> assets (fst (processEntry host_array sample_options ''a.liquid'' empty_world))
         ''sections/a.liquid''
       = Some (''{% schema %}'' @ newline @ ''['' @ newline @ ''    1'' @ newline @ '']''
               @ newline @ ''{% endschema %}'')"
  by code_simp

subsection \<open>C2: a module that cannot be loaded\<close>

lemma load_error_names_parts:
  "contains (load_error_message match importableFilePath fileLocation) match
   \<and> contains (load_error_message match importableFilePath fileLocation) ''^''
   \<and> contains (load_error_message match importableFilePath fileLocation) importableFilePath
   \<and> contains (load_error_message match importableFilePath fileLocation) fileLocation"
proof -
  let ?msg = "load_error_message match importableFilePath fileLocation"
  let ?l3 = "''      File to import not found or unreadable: ''"
  have a: "?msg = [] @ match @ (newline @ ''^'' @ newline @ ?l3 @ importableFilePath
                     @ newline @ ''      in '' @ fileLocation)"
    and b: "?msg = (match @ newline) @ ''^'' @ (newline @ ?l3 @ importableFilePath
                     @ newline @ ''      in '' @ fileLocation)"
    and c: "?msg = (match @ newline @ ''^'' @ newline @ ?l3) @ importableFilePath
                     @ (newline @ ''      in '' @ fileLocation)"
    and d: "?msg = (match @ newline @ ''^'' @ newline @ ?l3 @ importableFilePath
                     @ newline @ ''      in '') @ fileLocation @ []"
    by (simp_all add: load_error_message_def)
  have "contains ?msg match" by (subst a) (rule contains_infix)
  moreover have "contains ?msg ''^''" by (subst b) (rule contains_infix)
  moreover have "contains ?msg importableFilePath" by (subst c) (rule contains_infix)
  moreover have "contains ?msg fileLocation" by (subst d) (rule contains_infix)
  ultimately show ?thesis by simp
qed

text \<open>A module that is resolved but throws while it is loaded gives the message of lines
  161 to 166.\<close>

lemma module_that_throws_gives_load_error:
  assumes "readFile h loc = Inr fileContents"
    and "regex_exec replaceableSchemaRegex fileContents = Some m"
    and "groups m 1 = Some literal"
    and "require_resolve h (path_resolve h (from_schema opts) (strip_quotes literal)) = Inr resolved"
    and "require h (path_resolve h (from_schema opts) (strip_quotes literal))
           (w\<lparr>fileDependencies := insert resolved (fileDependencies w)\<rparr>) = (w2, Inl e)"
  shows "replaceSchemaTags h opts loc w =
     (w2, Inl (load_error_message (matched m)
                 (path_resolve h (from_schema opts) (strip_quotes literal)) loc))"
  using assms unfolding replaceSchemaTags_def Let_def by simp

text \<open>
  C2, at the failing input. The claim holds for a module that throws while loading (the two
  lemmas above). For a module that is not found it does not: \<^verbatim>\<open>require.resolve\<close> of
  line 154 is outside the \<^verbatim>\<open>try\<close> of lines 157 to 167 and throws first, so the template
  \<^verbatim>\<open>{% schema 'missing' %}\<close> gets the error of the module resolution, and the entry of the
  error list carries neither the text of the directive nor the caret.
\<close>

theorem missing_module_error_lacks_directive:
  "require_resolve host_missing ''/p/schema/missing'' = Inl ''Error: Cannot find module /p/schema/missing''
   \<and> matched (the (regex_exec replaceableSchemaRegex ''{% schema 'missing' %}'')) = ''{% schema 'missing' %}''
   \<and> processEntry host_missing sample_options ''a.liquid'' empty_world
       = (empty_world\<lparr>errors := [error_entry ''liquid/a.liquid''
                                     ''Error: Cannot find module /p/schema/missing'']\<rparr>, None)
   \<and> \<not> contains (error_entry ''liquid/a.liquid'' ''Error: Cannot find module /p/schema/missing'')
          ''{% schema 'missing' %}''
   \<and> \<not> contains (error_entry ''liquid/a.liquid'' ''Error: Cannot find module /p/schema/missing'')
          ''^''"
proof -
  have 1: "require_resolve host_missing ''/p/schema/missing'' = Inl ''Error: Cannot find module /p/schema/missing''"
    by code_simp
  have 2: "matched (the (regex_exec replaceableSchemaRegex ''{% schema 'missing' %}'')) = ''{% schema 'missing' %}''"
    by code_simp
  have r: "readFile host_missing ''/p/liquid/a.liquid'' = Inr ''{% schema 'missing' %}''"
    by code_simp
  have ne: "regex_exec replaceableSchemaRegex ''{% schema 'missing' %}'' \<noteq> None" by code_simp
  have g: "groups (the (regex_exec replaceableSchemaRegex ''{% schema 'missing' %}'')) 1
      = Some [CHR 0x27, CHR ''m'', CHR ''i'', CHR ''s'', CHR ''s'', CHR ''i'', CHR ''n'', CHR ''g'', CHR 0x27]"
    by code_simp
  have p: "path_resolve host_missing (from_liquid sample_options) ''a.liquid'' = ''/p/liquid/a.liquid''"
      "path_resolve host_missing (from_schema sample_options)
         (strip_quotes [CHR 0x27, CHR ''m'', CHR ''i'', CHR ''s'', CHR ''s'', CHR ''i'', CHR ''n'', CHR ''g'', CHR 0x27])
        = ''/p/schema/missing''"
      "path_relative host_missing (options_context sample_options) ''/p/liquid/a.liquid'' = ''liquid/a.liquid''"
      "stat_isFile host_missing ''/p/liquid/a.liquid'' = Inr True"
      "path_extname host_missing ''a.liquid'' = ''.liquid''"
    by code_simp+
  from ne obtain m where m: "regex_exec replaceableSchemaRegex ''{% schema 'missing' %}'' = Some m"
    by blast
  have rs: "replaceSchemaTags host_missing sample_options ''/p/liquid/a.liquid'' empty_world
      = (empty_world, Inl ''Error: Cannot find module /p/schema/missing'')"
    using r m g p(2) 1 unfolding replaceSchemaTags_def Let_def by simp
  have 3: "processEntry host_missing sample_options ''a.liquid'' empty_world
       = (empty_world\<lparr>errors := [error_entry ''liquid/a.liquid''
                                     ''Error: Cannot find module /p/schema/missing'']\<rparr>, None)"
    using rs p unfolding processEntry_def transformFile_def Let_def
    by (simp add: empty_world_def)
  have 4: "\<not> contains (error_entry ''liquid/a.liquid'' ''Error: Cannot find module /p/schema/missing'')
          ''{% schema 'missing' %}''"
    by code_simp
  have 5: "\<not> contains (error_entry ''liquid/a.liquid'' ''Error: Cannot find module /p/schema/missing'')
          ''^''"
    by code_simp
  from 1 2 3 4 5 show ?thesis by simp
qed

subsection \<open>C3: duplication rules give the variants and nothing else\<close>

text \<open>
  C3. Take a template whose content after schema resolution has a duplicate directive with
  a non-empty body that \<^verbatim>\<open>JSON.parse\<close> reads as an array of target names. Then the callback
  of the entry changes the output map by the variants only: the new map is the old one
  updated, name by name, at the key that \<open>getOutputKeyByFileName\<close> gives for
  \<^verbatim>\<open>${name}.liquid\<close>, the function that also gives the natural key of the file from its
  path relative to the template directory. So the keys of the map are the old keys and one
  key for each target name, no error is reported, and the natural key of the file, unless a
  target name maps to that very key, holds what it held before: the single asset is not
  added.
\<close>

theorem duplicate_rules_emit_variants_only:
  assumes "stat_isFile h (path_resolve h (from_liquid opts) file) = Inr True"
    and "path_extname h file = ''.liquid''"
    and "replaceSchemaTags h opts (path_resolve h (from_liquid opts) file) w = (w1, Inr outputFile)"
    and "regex_exec duplicateRulesRegex outputFile = Some m"
    and "groups m 1 = Some body"
    and "body \<noteq> []"
    and "JSON_parse h body = Inr (VArr (map VStr names))"
    and "names \<noteq> []"
  shows "processEntry h opts file w =
           (w1\<lparr>assets := fold (add_variant h opts (outputPath opts) (cleanDupicateTag outputFile))
                              (map VStr names) (assets w)\<rparr>, None)
       \<and> errors (fst (processEntry h opts file w)) = errors w
       \<and> dom (assets (fst (processEntry h opts file w)))
           = dom (assets w)
             \<union> (\<lambda>n. getOutputKeyByFileName h opts (n @ ''.liquid'') (outputPath opts)) ` set names
       \<and> getOutputKey h opts (path_resolve h (from_liquid opts) file) (outputPath opts)
           = getOutputKeyByFileName h opts
               (path_relative h (from_liquid opts) (path_resolve h (from_liquid opts) file))
               (outputPath opts)
       \<and> (getOutputKey h opts (path_resolve h (from_liquid opts) file) (outputPath opts)
             \<notin> (\<lambda>n. getOutputKeyByFileName h opts (n @ ''.liquid'') (outputPath opts)) ` set names
           \<longrightarrow> assets (fst (processEntry h opts file w))
                 (getOutputKey h opts (path_resolve h (from_liquid opts) file) (outputPath opts))
               = assets w
                 (getOutputKey h opts (path_resolve h (from_liquid opts) file) (outputPath opts)))"
proof -
  let ?loc = "path_resolve h (from_liquid opts) file"
  let ?key = "getOutputKey h opts ?loc (outputPath opts)"
  let ?vkey = "\<lambda>n. getOutputKeyByFileName h opts (n @ ''.liquid'') (outputPath opts)"
  let ?rules = "VArr (map VStr names)"
  let ?a = "fold (add_variant h opts (outputPath opts) (cleanDupicateTag outputFile))
              (map VStr names) (assets w)"
  from replaceSchemaTags_keeps [OF assms(3)]
  have keep: "assets w1 = assets w" "errors w1 = errors w" by simp_all
  have rules: "getDuplicateRules h outputFile = Inr ?rules"
    using getDuplicateRules_body [OF assms(4,5), of h] assms(6,7) by simp
  have dup: "duplicatedFiles h opts (outputPath opts) ?rules (cleanDupicateTag outputFile) (assets w1)
      = Inr ?a"
    by (simp add: duplicatedFiles_def keep)
  have tf: "transformFile h opts ?loc ?key w = (w1\<lparr>assets := ?a\<rparr>, Inr ())"
    using transformFile_duplicate [OF assms(3) rules, of ?key] dup by simp
  have pe: "processEntry h opts file w = (w1\<lparr>assets := ?a\<rparr>, None)"
    using processEntry_template [OF assms(1,2) tf] by simp
  have img: "(\<lambda>v. getOutputKeyByFileName h opts (to_string h v @ ''.liquid'') (outputPath opts))
               ` set (map VStr names) = ?vkey ` set names"
    by (auto simp: image_iff)
  have d: "dom ?a = dom (assets w) \<union> ?vkey ` set names"
    by (simp only: fold_add_variant_dom img)
  have o: "?key \<notin> ?vkey ` set names \<longrightarrow> ?a ?key = assets w ?key"
    using fold_add_variant_other [of ?key h opts "outputPath opts" "map VStr names"
            "cleanDupicateTag outputFile" "assets w"]
    by (simp only: img) blast
  have k: "?key = getOutputKeyByFileName h opts (path_relative h (from_liquid opts) ?loc)
                    (outputPath opts)"
    by (simp add: getOutputKey_def)
  from pe keep d o k show ?thesis by simp
qed

theorem duplicate_rules_emit_variants_only_witness:
  "JSON_parse (host_duplicate template_red_blue) rules_red_blue
     = Inr (VArr (map VStr [''red'', ''blue'']))
   \<and> dom (assets (fst (processEntry (host_duplicate template_red_blue) sample_options ''a.liquid''
                          empty_world)))
       = {''sections/red.liquid'', ''sections/blue.liquid''}
   \<and> assets (fst (processEntry (host_duplicate template_red_blue) sample_options ''a.liquid''
                     empty_world)) ''sections/a.liquid''
       = None"
proof -
  let ?h = "host_duplicate template_red_blue" and ?o = sample_options
  let ?m = "the (regex_exec duplicateRulesRegex template_red_blue)"
  let ?w1 = "fst (replaceSchemaTags ?h ?o ''/p/liquid/a.liquid'' empty_world)"
  have p: "path_resolve ?h (from_liquid ?o) ''a.liquid'' = ''/p/liquid/a.liquid''"
      "getOutputKey ?h ?o ''/p/liquid/a.liquid'' (outputPath ?o) = ''sections/a.liquid''"
      "getOutputKeyByFileName ?h ?o (''red'' @ ''.liquid'') (outputPath ?o) = ''sections/red.liquid''"
      "getOutputKeyByFileName ?h ?o (''blue'' @ ''.liquid'') (outputPath ?o) = ''sections/blue.liquid''"
    by code_simp+
  have 1: "stat_isFile ?h (path_resolve ?h (from_liquid ?o) ''a.liquid'') = Inr True" by code_simp
  have 2: "path_extname ?h ''a.liquid'' = ''.liquid''" by code_simp
  have "snd (replaceSchemaTags ?h ?o ''/p/liquid/a.liquid'' empty_world) = Inr template_red_blue"
    by code_simp
  then have 3: "replaceSchemaTags ?h ?o (path_resolve ?h (from_liquid ?o) ''a.liquid'') empty_world
      = (?w1, Inr template_red_blue)"
    by (simp only: p) (simp add: prod_eq_iff)
  have "regex_exec duplicateRulesRegex template_red_blue \<noteq> None" by code_simp
  then have 4: "regex_exec duplicateRulesRegex template_red_blue = Some ?m" by simp
  have 5: "groups ?m 1 = Some rules_red_blue" by code_simp
  have 6: "rules_red_blue \<noteq> []" by code_simp
  have 7: "JSON_parse ?h rules_red_blue = Inr (VArr (map VStr [''red'', ''blue'']))" by code_simp
  have 8: "[''red'', ''blue''] \<noteq> []" by simp
  have ne: "''sections/a.liquid'' \<noteq> ''sections/red.liquid''"
      "''sections/a.liquid'' \<noteq> ''sections/blue.liquid''"
    by simp_all
  have e: "assets empty_world = Map.empty" by (simp add: empty_world_def)
  from duplicate_rules_emit_variants_only [OF 1 2 3 4 5 6 7 8]
  have d: "dom (assets (fst (processEntry ?h ?o ''a.liquid'' empty_world)))
        = dom (assets empty_world)
          \<union> (\<lambda>n. getOutputKeyByFileName ?h ?o (n @ ''.liquid'') (outputPath ?o))
              ` set [''red'', ''blue'']"
    and o: "getOutputKey ?h ?o (path_resolve ?h (from_liquid ?o) ''a.liquid'') (outputPath ?o)
             \<notin> (\<lambda>n. getOutputKeyByFileName ?h ?o (n @ ''.liquid'') (outputPath ?o))
                 ` set [''red'', ''blue'']
           \<longrightarrow> assets (fst (processEntry ?h ?o ''a.liquid'' empty_world))
                 (getOutputKey ?h ?o (path_resolve ?h (from_liquid ?o) ''a.liquid'') (outputPath ?o))
               = assets empty_world
                 (getOutputKey ?h ?o (path_resolve ?h (from_liquid ?o) ''a.liquid'') (outputPath ?o))"
    by blast+
  have img: "(\<lambda>n. getOutputKeyByFileName ?h ?o (n @ ''.liquid'') (outputPath ?o))
                 ` set [''red'', ''blue''] = {''sections/red.liquid'', ''sections/blue.liquid''}"
    by (simp only: list.set image_insert image_empty p)
  from d have d': "dom (assets (fst (processEntry ?h ?o ''a.liquid'' empty_world)))
       = {''sections/red.liquid'', ''sections/blue.liquid''}"
    by (simp only: img e dom_empty Un_empty_left)
  from o have o': "assets (fst (processEntry ?h ?o ''a.liquid'' empty_world)) ''sections/a.liquid'' = None"
    using ne by (simp only: img p e) simp
  from 7 d' o' show ?thesis by simp
qed

subsection \<open>C4: the placeholder in a variant\<close>

text \<open>
  C4, at the failing input. \<open>duplicatedFiles\<close> calls \<^verbatim>\<open>replace\<close> with a string pattern
  (line 217), which replaces the first occurrence only: for a template body that holds the
  placeholder twice and the target name \<^verbatim>\<open>red\<close>, the variant keeps the second placeholder.
\<close>

theorem second_placeholder_is_kept:
  "cleanDupicateTag template_two_tokens = ''<h1>-{{title_section}}-</h1><p>-{{title_section}}-</p>''
   \<and> assets (fst (processEntry (host_duplicate template_two_tokens) sample_options ''a.liquid''
                     empty_world)) ''sections/red.liquid''
       = Some ''<h1>red</h1><p>-{{title_section}}-</p>''"
  by code_simp

subsection \<open>C5: removal of the duplicate directive\<close>

text \<open>With a blank line after the closing tag the directive and the blank line are
  removed.\<close>

lemma directive_with_blank_line_is_removed:
  "cleanDupicateTag template_red_blue = ''<h1>-{{title_section}}-</h1>''"
  by code_simp

text \<open>
  C5, at the failing input. The regular expression of \<open>cleanDupicateTag\<close> requires two
  line feeds after the closing tag, the one of \<open>getDuplicateRules\<close> does not. For a template
  whose directive is followed by a single line feed the rules are parsed, nothing is
  removed, and the emitted variant still holds the whole directive.
\<close>

theorem directive_without_blank_line_is_kept:
  "getDuplicateRules (host_duplicate template_no_blank_line) template_no_blank_line
     = Inr (VArr [VStr ''red''])
   \<and> cleanDupicateTag template_no_blank_line = template_no_blank_line
   \<and> assets (fst (processEntry (host_duplicate template_no_blank_line) sample_options ''a.liquid''
                     empty_world)) ''sections/red.liquid''
       = Some (duplicate_block rules_red @ newline @ ''<h1>red</h1>'')
   \<and> contains (duplicate_block rules_red @ newline @ ''<h1>red</h1>'') (duplicate_block rules_red)"
  by code_simp

subsection \<open>C6: a duplicate directive with an empty body\<close>

text \<open>
  C6, as amended. A template whose content after schema resolution has a duplicate
  directive with an empty body is treated as one that has no duplicate directive: in both
  cases the callback of the entry reports no error and stores exactly one asset, under the
  natural output key of the file, whose content is the content after schema resolution,
  unchanged.
\<close>

theorem empty_duplicate_body_passes_through:
  assumes "stat_isFile h (path_resolve h (from_liquid opts) file) = Inr True"
    and "path_extname h file = ''.liquid''"
    and "replaceSchemaTags h opts (path_resolve h (from_liquid opts) file) w = (w1, Inr outputFile)"
    and "regex_exec duplicateRulesRegex outputFile = None
         \<or> (\<exists>m. regex_exec duplicateRulesRegex outputFile = Some m \<and> groups m 1 = Some [])"
  shows "processEntry h opts file w =
           (w1\<lparr>assets := (assets w)
                   (getOutputKey h opts (path_resolve h (from_liquid opts) file) (outputPath opts)
                      \<mapsto> outputFile)\<rparr>, None)
       \<and> errors w1 = errors w"
proof -
  let ?loc = "path_resolve h (from_liquid opts) file"
  let ?key = "getOutputKey h opts ?loc (outputPath opts)"
  from replaceSchemaTags_keeps [OF assms(3)]
  have keep: "assets w1 = assets w" "errors w1 = errors w" by simp_all
  have rules: "getDuplicateRules h outputFile = Inr (VStr [])"
    using assms(4) getDuplicateRules_absent [of outputFile h]
      getDuplicateRules_body [of outputFile _ "[]" h]
    by auto
  have tf: "transformFile h opts ?loc ?key w
      = (w1\<lparr>assets := (assets w1)(?key \<mapsto> outputFile)\<rparr>, Inr ())"
    using transformFile_single [OF assms(3) rules, of ?key] by simp
  from processEntry_template [OF assms(1,2) tf] keep show ?thesis by simp
qed

theorem empty_duplicate_body_passes_through_witness:
  "groups (the (regex_exec duplicateRulesRegex template_empty_rules)) 1 = Some []
   \<and> assets (fst (processEntry (host_duplicate template_empty_rules) sample_options ''a.liquid''
                     empty_world))
       = [''sections/a.liquid'' \<mapsto> template_empty_rules]
   \<and> errors (fst (processEntry (host_duplicate template_empty_rules) sample_options ''a.liquid''
                     empty_world)) = []"
proof -
  let ?h = "host_duplicate template_empty_rules" and ?o = sample_options
  let ?m = "the (regex_exec duplicateRulesRegex template_empty_rules)"
  let ?w1 = "fst (replaceSchemaTags ?h ?o ''/p/liquid/a.liquid'' empty_world)"
  have p: "path_resolve ?h (from_liquid ?o) ''a.liquid'' = ''/p/liquid/a.liquid''"
      "getOutputKey ?h ?o ''/p/liquid/a.liquid'' (outputPath ?o) = ''sections/a.liquid''"
    by code_simp+
  have 1: "stat_isFile ?h (path_resolve ?h (from_liquid ?o) ''a.liquid'') = Inr True" by code_simp
  have 2: "path_extname ?h ''a.liquid'' = ''.liquid''" by code_simp
  have "snd (replaceSchemaTags ?h ?o ''/p/liquid/a.liquid'' empty_world) = Inr template_empty_rules"
    by code_simp
  then have 3: "replaceSchemaTags ?h ?o (path_resolve ?h (from_liquid ?o) ''a.liquid'') empty_world
      = (?w1, Inr template_empty_rules)"
    by (simp only: p) (simp add: prod_eq_iff)
  have "regex_exec duplicateRulesRegex template_empty_rules \<noteq> None" by code_simp
  then have m: "regex_exec duplicateRulesRegex template_empty_rules = Some ?m" by simp
  have g: "groups ?m 1 = Some []" by code_simp
  from m g have 4: "regex_exec duplicateRulesRegex template_empty_rules = None
         \<or> (\<exists>m. regex_exec duplicateRulesRegex template_empty_rules = Some m \<and> groups m 1 = Some [])"
    by blast
  from empty_duplicate_body_passes_through [OF 1 2 3 4]
  have "processEntry ?h ?o ''a.liquid'' empty_world
      = (?w1\<lparr>assets := (assets empty_world)(''sections/a.liquid'' \<mapsto> template_empty_rules)\<rparr>, None)"
    and "errors ?w1 = errors empty_world"
    by (simp_all only: p)
  with g show ?thesis by (simp add: empty_world_def)
qed


text \<open>
  As stated, the claim also says that the text of the directive is removed from that asset.
  It is not: \<open>cleanDupicateTag\<close> is only called when there are rules, so the asset holds the
  empty directive.
\<close>

theorem empty_duplicate_directive_is_kept_counterexample:
  "groups (the (regex_exec duplicateRulesRegex template_empty_rules)) 1 = Some []
   \<and> assets (fst (processEntry (host_duplicate template_empty_rules) sample_options ''a.liquid''
                     empty_world)) ''sections/a.liquid''
       = Some template_empty_rules
   \<and> contains template_empty_rules ''{% duplicate %}{% endduplicate %}''"
  by code_simp


subsection \<open>C7: the error of one file does not stop the batch\<close>

text \<open>What a template whose pipeline does not throw writes: the variants when there are
  rules, the single asset under its key otherwise.\<close>

lemma transformFile_success:
  assumes "transformFile h opts loc key w = (w', Inr u)"
  shows "\<exists>outputFile rules.
       snd (replaceSchemaTags h opts loc w) = Inr outputFile
     \<and> getDuplicateRules h outputFile = Inr rules
     \<and> (if truthy rules
         then \<exists>names. rules = VArr names
                \<and> assets w' = fold (add_variant h opts (outputPath opts) (cleanDupicateTag outputFile))
                                  names (assets w)
         else assets w' = (assets w)(key \<mapsto> outputFile))"
proof -
  obtain w1 r1 where a: "replaceSchemaTags h opts loc w = (w1, r1)"
    by (cases "replaceSchemaTags h opts loc w")
  from replaceSchemaTags_keeps [OF a] have k: "assets w1 = assets w" by simp
  show ?thesis
  proof (cases r1)
    case (Inl e)
    with a assms show ?thesis by (simp add: transformFile_resolution_error)
  next
    case (Inr outputFile)
    note a' = a [unfolded Inr]
    show ?thesis
    proof (cases "getDuplicateRules h outputFile")
      case (Inl e)
      from transformFile_rules_error [OF a' Inl, of key] assms show ?thesis by simp
    next
      case rules: (Inr rules)
      show ?thesis
      proof (cases "truthy rules")
        case False
        from transformFile_single [OF a' rules False, of key] assms
        have "assets w' = (assets w)(key \<mapsto> outputFile)" using k by auto
        with a' rules False show ?thesis by simp
      next
        case True
        note t = transformFile_duplicate [OF a' rules True, of key]
        show ?thesis
        proof (cases "duplicatedFiles h opts (outputPath opts) rules
                        (cleanDupicateTag outputFile) (assets w1)")
          case (Inl e)
          with t assms show ?thesis by simp
        next
          case (Inr a2)
          from duplicatedFiles_truthy [OF True Inr] obtain names where
            n: "rules = VArr names"
               "a2 = fold (add_variant h opts (outputPath opts) (cleanDupicateTag outputFile))
                       names (assets w1)"
            by blast
          from t assms Inr have "assets w' = a2" by auto
          with n k a' rules True show ?thesis by simp
        qed
      qed
    qed
  qed
qed

text \<open>
  C7. In a batch, take a template (an entry that \<^verbatim>\<open>fs.stat\<close> reports as a file and that
  ends in \<^verbatim>\<open>.liquid\<close>) whose resolution or expansion throws \<open>e\<close>. Then the throw is caught:
  the callback of the entry is not rejected, and it appends exactly one entry to the error
  list, which is \<^verbatim>\<open>./\<close>, the relative path of the file, two line feeds and \<open>e\<close>, so that it
  carries both the path and the error. The entries after it are processed from the world it
  leaves, and at the end of the batch that entry is in the error list. Every template of the
  batch, before or after it, has its outcome in the final world: if its pipeline throws, its
  own wrapped entry is in the error list; if not, it has written its assets (the variants
  for the names of its rules, or its content under its natural key) and the keys it wrote
  are keys of the final output map.
\<close>

theorem file_errors_are_isolated:
  assumes "stat_isFile h (path_resolve h (from_liquid opts) file) = Inr True"
    and "path_extname h file = ''.liquid''"
    and "processEntries h opts pre w = (w0, r0)"
    and "transformFile h opts (path_resolve h (from_liquid opts) file)
           (getOutputKey h opts (path_resolve h (from_liquid opts) file) (outputPath opts)) w0
         = (w1, Inl e)"
    and "processEntries h opts (pre @ file # post) w = (w_end, r)"
  shows "\<exists>entry.
       entry = ''./'' @ path_relative h (options_context opts)
                          (path_resolve h (from_liquid opts) file)
               @ newline @ newline @ e
     \<and> contains entry (path_relative h (options_context opts)
                          (path_resolve h (from_liquid opts) file))
     \<and> contains entry e
     \<and> processEntry h opts file w0 = (w1\<lparr>errors := errors w1 @ [entry]\<rparr>, None)
     \<and> errors w1 = errors w0
     \<and> processEntries h opts post (w1\<lparr>errors := errors w1 @ [entry]\<rparr>)
         = (w_end, snd (processEntries h opts post (w1\<lparr>errors := errors w1 @ [entry]\<rparr>)))
     \<and> r = (case r0 of
              Some x \<Rightarrow> Some x
            | None \<Rightarrow> snd (processEntries h opts post (w1\<lparr>errors := errors w1 @ [entry]\<rparr>)))
     \<and> entry \<in> set (errors w_end)
     \<and> (\<forall>xs g ys.
           pre @ file # post = xs @ g # ys
           \<longrightarrow> stat_isFile h (path_resolve h (from_liquid opts) g) = Inr True
           \<longrightarrow> path_extname h g = ''.liquid''
           \<longrightarrow> (case transformFile h opts (path_resolve h (from_liquid opts) g)
                        (getOutputKey h opts (path_resolve h (from_liquid opts) g) (outputPath opts))
                        (fst (processEntries h opts xs w)) of
                  (wg, Inl e') \<Rightarrow>
                    ''./'' @ path_relative h (options_context opts)
                               (path_resolve h (from_liquid opts) g)
                      @ newline @ newline @ e'
                      \<in> set (errors w_end)
                | (wg, Inr u) \<Rightarrow>
                    dom (assets wg) \<subseteq> dom (assets w_end)
                    \<and> (\<exists>outputFile rules.
                          snd (replaceSchemaTags h opts (path_resolve h (from_liquid opts) g)
                                 (fst (processEntries h opts xs w))) = Inr outputFile
                        \<and> getDuplicateRules h outputFile = Inr rules
                        \<and> (if truthy rules
                            then \<exists>names. rules = VArr names
                              \<and> assets wg
                                  = fold (add_variant h opts (outputPath opts)
                                            (cleanDupicateTag outputFile))
                                      names (assets (fst (processEntries h opts xs w)))
                              \<and> (\<lambda>v. getOutputKeyByFileName h opts
                                         (to_string h v @ ''.liquid'') (outputPath opts))
                                    ` set names \<subseteq> dom (assets w_end)
                            else assets wg
                                  = (assets (fst (processEntries h opts xs w)))
                                      (getOutputKey h opts (path_resolve h (from_liquid opts) g)
                                         (outputPath opts) \<mapsto> outputFile)
                              \<and> getOutputKey h opts (path_resolve h (from_liquid opts) g)
                                    (outputPath opts) \<in> dom (assets w_end)))))"
proof -
  let ?loc = "\<lambda>g. path_resolve h (from_liquid opts) g"
  let ?rel = "\<lambda>g. path_relative h (options_context opts) (?loc g)"
  let ?key = "\<lambda>g. getOutputKey h opts (?loc g) (outputPath opts)"
  let ?vkey = "\<lambda>v. getOutputKeyByFileName h opts (to_string h v @ ''.liquid'') (outputPath opts)"
  let ?entry = "''./'' @ ?rel file @ newline @ newline @ e"
  let ?w1 = "w1\<lparr>errors := errors w1 @ [?entry]\<rparr>"
  have lit: "\<And>rel x. error_entry rel x = ''./'' @ rel @ newline @ newline @ x"
    by (simp add: error_entry_def)
  have ent: "processEntry h opts file w0 = (?w1, None)"
    using processEntry_template [OF assms(1,2,4)] by (simp add: lit)
  from transformFile_grows [OF assms(4)] have e0: "errors w1 = errors w0" by simp
  have spl: "processEntries h opts (pre @ file # post) w =
      (case processEntries h opts post ?w1 of
         (w', r') \<Rightarrow> (w', (case r0 of Some x \<Rightarrow> Some x | None \<Rightarrow> r')))"
    by (rule processEntries_split [OF assms(3) ent])
  obtain w' r' where rest: "processEntries h opts post ?w1 = (w', r')"
    by (cases "processEntries h opts post ?w1")
  with spl assms(5) have w_end: "w_end = w'"
    and r: "r = (case r0 of Some x \<Rightarrow> Some x | None \<Rightarrow> r')"
    by simp_all
  have mem: "?entry \<in> set (errors w_end)"
    using processEntries_grows [OF rest] w_end by auto
  have all: "\<forall>xs g ys.
           pre @ file # post = xs @ g # ys
           \<longrightarrow> stat_isFile h (?loc g) = Inr True
           \<longrightarrow> path_extname h g = ''.liquid''
           \<longrightarrow> (case transformFile h opts (?loc g) (?key g) (fst (processEntries h opts xs w)) of
                  (wg, Inl e') \<Rightarrow> ''./'' @ ?rel g @ newline @ newline @ e' \<in> set (errors w_end)
                | (wg, Inr u) \<Rightarrow>
                    dom (assets wg) \<subseteq> dom (assets w_end)
                    \<and> (\<exists>outputFile rules.
                          snd (replaceSchemaTags h opts (?loc g) (fst (processEntries h opts xs w)))
                            = Inr outputFile
                        \<and> getDuplicateRules h outputFile = Inr rules
                        \<and> (if truthy rules
                            then \<exists>names. rules = VArr names
                              \<and> assets wg
                                  = fold (add_variant h opts (outputPath opts)
                                            (cleanDupicateTag outputFile))
                                      names (assets (fst (processEntries h opts xs w)))
                              \<and> ?vkey ` set names \<subseteq> dom (assets w_end)
                            else assets wg
                                  = (assets (fst (processEntries h opts xs w)))(?key g \<mapsto> outputFile)
                              \<and> ?key g \<in> dom (assets w_end))))"
  proof (intro allI impI)
    fix xs g ys
    assume eq: "pre @ file # post = xs @ g # ys"
      and st: "stat_isFile h (?loc g) = Inr True"
      and ex: "path_extname h g = ''.liquid''"
    obtain wx rx where px: "processEntries h opts xs w = (wx, rx)"
      by (cases "processEntries h opts xs w")
    obtain wg res where tg: "transformFile h opts (?loc g) (?key g) wx = (wg, res)"
      by (cases "transformFile h opts (?loc g) (?key g) wx")
    obtain wg1 rg where pg: "processEntry h opts g wx = (wg1, rg)"
      by (cases "processEntry h opts g wx")
    obtain wy ry where py: "processEntries h opts ys wg1 = (wy, ry)"
      by (cases "processEntries h opts ys wg1")
    have "processEntries h opts (xs @ g # ys) w = (w_end, r)"
      using assms(5) eq by simp
    then have wy: "wy = w_end"
      using px pg py by (simp add: processEntries_append)
    note grow = processEntries_grows [OF py]
    note tmpl = processEntry_template [OF st ex tg]
    show "case transformFile h opts (?loc g) (?key g) (fst (processEntries h opts xs w)) of
            (wg, Inl e') \<Rightarrow> ''./'' @ ?rel g @ newline @ newline @ e' \<in> set (errors w_end)
          | (wg, Inr u) \<Rightarrow>
              dom (assets wg) \<subseteq> dom (assets w_end)
              \<and> (\<exists>outputFile rules.
                    snd (replaceSchemaTags h opts (?loc g) (fst (processEntries h opts xs w)))
                      = Inr outputFile
                  \<and> getDuplicateRules h outputFile = Inr rules
                  \<and> (if truthy rules
                      then \<exists>names. rules = VArr names
                        \<and> assets wg
                            = fold (add_variant h opts (outputPath opts)
                                      (cleanDupicateTag outputFile))
                                names (assets (fst (processEntries h opts xs w)))
                        \<and> ?vkey ` set names \<subseteq> dom (assets w_end)
                      else assets wg
                            = (assets (fst (processEntries h opts xs w)))(?key g \<mapsto> outputFile)
                        \<and> ?key g \<in> dom (assets w_end)))"
    proof (cases res)
      case (Inl e')
      with tmpl pg have "''./'' @ ?rel g @ newline @ newline @ e' \<in> set (errors wg1)"
        by (auto simp: lit)
      with grow wy have "''./'' @ ?rel g @ newline @ newline @ e' \<in> set (errors w_end)" by auto
      with px tg Inl show ?thesis by simp
    next
      case (Inr u)
      with tmpl pg have "wg1 = wg" by simp
      with grow wy have sub: "dom (assets wg) \<subseteq> dom (assets w_end)" by simp
      from transformFile_success [OF tg [unfolded Inr]] obtain outputFile rules where
        o1: "snd (replaceSchemaTags h opts (?loc g) wx) = Inr outputFile"
        and o2: "getDuplicateRules h outputFile = Inr rules"
        and o3: "if truthy rules
                 then \<exists>names. rules = VArr names
                   \<and> assets wg = fold (add_variant h opts (outputPath opts)
                                          (cleanDupicateTag outputFile)) names (assets wx)
                 else assets wg = (assets wx)(?key g \<mapsto> outputFile)"
        by blast
      have o4: "if truthy rules
                then \<exists>names. rules = VArr names
                  \<and> assets wg = fold (add_variant h opts (outputPath opts)
                                         (cleanDupicateTag outputFile)) names (assets wx)
                  \<and> ?vkey ` set names \<subseteq> dom (assets w_end)
                else assets wg = (assets wx)(?key g \<mapsto> outputFile)
                  \<and> ?key g \<in> dom (assets w_end)"
      proof (cases "truthy rules")
        case True
        with o3 obtain names where
          n: "rules = VArr names"
             "assets wg = fold (add_variant h opts (outputPath opts)
                                  (cleanDupicateTag outputFile)) names (assets wx)"
          by auto
        have "?vkey ` set names \<subseteq> dom (assets wg)"
          by (simp only: n(2) fold_add_variant_dom) blast
        with sub have "?vkey ` set names \<subseteq> dom (assets w_end)" by blast
        with n True show ?thesis by simp
      next
        case False
        with o3 have n: "assets wg = (assets wx)(?key g \<mapsto> outputFile)" by simp
        then have "?key g \<in> dom (assets wg)" by simp
        with sub have "?key g \<in> dom (assets w_end)" by blast
        with n False show ?thesis by simp
      qed
      from sub o1 o2 o4 have "dom (assets wg) \<subseteq> dom (assets w_end)
              \<and> (\<exists>outputFile rules.
                    snd (replaceSchemaTags h opts (?loc g) wx) = Inr outputFile
                  \<and> getDuplicateRules h outputFile = Inr rules
                  \<and> (if truthy rules
                      then \<exists>names. rules = VArr names
                        \<and> assets wg
                            = fold (add_variant h opts (outputPath opts)
                                      (cleanDupicateTag outputFile)) names (assets wx)
                        \<and> ?vkey ` set names \<subseteq> dom (assets w_end)
                      else assets wg = (assets wx)(?key g \<mapsto> outputFile)
                        \<and> ?key g \<in> dom (assets w_end)))"
        by blast
      moreover have "fst (processEntries h opts xs w) = wx" using px by simp
      ultimately show ?thesis by (simp only: tg Inr prod.case sum.case)
    qed
  qed
  have names: "contains ?entry (?rel file)" "contains ?entry e"
    using error_entry_names_file [of "?rel file" e] error_entry_carries_error [of "?rel file" e]
    by (simp_all only: lit)
  have rest': "processEntries h opts post ?w1 = (w_end, snd (processEntries h opts post ?w1))"
    using rest w_end by simp
  have r': "r = (case r0 of Some x \<Rightarrow> Some x | None \<Rightarrow> snd (processEntries h opts post ?w1))"
    using r rest by (cases r0) simp_all
  show ?thesis
    apply (rule exI [where x = ?entry])
    apply (intro conjI)
            apply (rule refl)
           apply (rule names(1))
          apply (rule names(2))
         apply (rule ent)
        apply (rule e0)
       apply (rule rest')
      apply (rule r')
     apply (rule mem)
    apply (rule all)
    done
qed

theorem file_errors_are_isolated_witness:
  "snd (transformFile host_number sample_options ''/p/liquid/a.liquid'' ''sections/a.liquid'' empty_world)
     = Inl (type_error_message host_number (VNum 5) ''/p/schema/m.js'')
   \<and> ''./liquid/a.liquid'' @ newline @ newline
         @ type_error_message host_number (VNum 5) ''/p/schema/m.js''
       \<in> set (errors (fst (processEntries host_number sample_options [''a.liquid'', ''b.liquid'']
                              empty_world)))
   \<and> contains (''./liquid/a.liquid'' @ newline @ newline
                  @ type_error_message host_number (VNum 5) ''/p/schema/m.js'')
        (type_error_message host_number (VNum 5) ''/p/schema/m.js'')
   \<and> assets (fst (transformFile host_number sample_options ''/p/liquid/b.liquid''
                     ''sections/b.liquid''
                     (fst (processEntries host_number sample_options [''a.liquid''] empty_world))))
       = (assets (fst (processEntries host_number sample_options [''a.liquid''] empty_world)))
           (''sections/b.liquid'' \<mapsto> ''plain'')
   \<and> ''sections/b.liquid''
       \<in> dom (assets (fst (processEntries host_number sample_options [''a.liquid'', ''b.liquid'']
                              empty_world)))"
proof -
  let ?h = host_number and ?o = sample_options
  let ?msg = "type_error_message host_number (VNum 5) ''/p/schema/m.js''"
  let ?wa = "fst (transformFile ?h ?o ''/p/liquid/a.liquid'' ''sections/a.liquid'' empty_world)"
  let ?w_end = "fst (processEntries ?h ?o [''a.liquid'', ''b.liquid''] empty_world)"
  let ?wx = "fst (processEntries ?h ?o [''a.liquid''] empty_world)"
  let ?wb = "fst (transformFile ?h ?o ''/p/liquid/b.liquid'' ''sections/b.liquid'' ?wx)"
  have p: "path_resolve ?h (from_liquid ?o) ''a.liquid'' = ''/p/liquid/a.liquid''"
      "path_resolve ?h (from_liquid ?o) ''b.liquid'' = ''/p/liquid/b.liquid''"
      "getOutputKey ?h ?o ''/p/liquid/a.liquid'' (outputPath ?o) = ''sections/a.liquid''"
      "getOutputKey ?h ?o ''/p/liquid/b.liquid'' (outputPath ?o) = ''sections/b.liquid''"
      "path_relative ?h (options_context ?o) ''/p/liquid/a.liquid'' = ''liquid/a.liquid''"
    by code_simp+
  have 1: "stat_isFile ?h (path_resolve ?h (from_liquid ?o) ''a.liquid'') = Inr True" by code_simp
  have 2: "path_extname ?h ''a.liquid'' = ''.liquid''" by code_simp
  have 3: "processEntries ?h ?o [] empty_world = (empty_world, None)" by simp
  have t: "snd (transformFile ?h ?o ''/p/liquid/a.liquid'' ''sections/a.liquid'' empty_world) = Inl ?msg"
    by code_simp
  then have 4: "transformFile ?h ?o (path_resolve ?h (from_liquid ?o) ''a.liquid'')
      (getOutputKey ?h ?o (path_resolve ?h (from_liquid ?o) ''a.liquid'') (outputPath ?o)) empty_world
      = (?wa, Inl ?msg)"
    by (simp only: p) (simp add: prod_eq_iff)
  have 5: "processEntries ?h ?o ([] @ ''a.liquid'' # [''b.liquid'']) empty_world
      = (?w_end, snd (processEntries ?h ?o [''a.liquid'', ''b.liquid''] empty_world))"
    by simp
  have sb: "stat_isFile ?h (path_resolve ?h (from_liquid ?o) ''b.liquid'') = Inr True" by code_simp
  have eb: "path_extname ?h ''b.liquid'' = ''.liquid''" by code_simp
  have tb: "snd (transformFile ?h ?o ''/p/liquid/b.liquid'' ''sections/b.liquid'' ?wx) = Inr ()"
    by code_simp
  have rb: "snd (replaceSchemaTags ?h ?o ''/p/liquid/b.liquid'' ?wx) = Inr ''plain''"
    by code_simp
  have gb: "getDuplicateRules ?h ''plain'' = Inr (VStr [])" by code_simp
  from file_errors_are_isolated [OF 1 2 3 4 5]
  obtain entry where
    ent: "entry = ''./'' @ path_relative ?h (options_context ?o)
                             (path_resolve ?h (from_liquid ?o) ''a.liquid'')
                  @ newline @ newline @ ?msg"
    and carries: "contains entry ?msg"
    and mem: "entry \<in> set (errors ?w_end)"
    and all: "\<forall>xs g ys.
           [] @ ''a.liquid'' # [''b.liquid''] = xs @ g # ys
           \<longrightarrow> stat_isFile ?h (path_resolve ?h (from_liquid ?o) g) = Inr True
           \<longrightarrow> path_extname ?h g = ''.liquid''
           \<longrightarrow> (case transformFile ?h ?o (path_resolve ?h (from_liquid ?o) g)
                        (getOutputKey ?h ?o (path_resolve ?h (from_liquid ?o) g) (outputPath ?o))
                        (fst (processEntries ?h ?o xs empty_world)) of
                  (wg, Inl e') \<Rightarrow>
                    ''./'' @ path_relative ?h (options_context ?o)
                               (path_resolve ?h (from_liquid ?o) g)
                      @ newline @ newline @ e'
                      \<in> set (errors ?w_end)
                | (wg, Inr u) \<Rightarrow>
                    dom (assets wg) \<subseteq> dom (assets ?w_end)
                    \<and> (\<exists>outputFile rules.
                          snd (replaceSchemaTags ?h ?o (path_resolve ?h (from_liquid ?o) g)
                                 (fst (processEntries ?h ?o xs empty_world))) = Inr outputFile
                        \<and> getDuplicateRules ?h outputFile = Inr rules
                        \<and> (if truthy rules
                            then \<exists>names. rules = VArr names
                              \<and> assets wg
                                  = fold (add_variant ?h ?o (outputPath ?o)
                                            (cleanDupicateTag outputFile))
                                      names (assets (fst (processEntries ?h ?o xs empty_world)))
                              \<and> (\<lambda>v. getOutputKeyByFileName ?h ?o
                                         (to_string ?h v @ ''.liquid'') (outputPath ?o))
                                    ` set names \<subseteq> dom (assets ?w_end)
                            else assets wg
                                  = (assets (fst (processEntries ?h ?o xs empty_world)))
                                      (getOutputKey ?h ?o (path_resolve ?h (from_liquid ?o) g)
                                         (outputPath ?o) \<mapsto> outputFile)
                              \<and> getOutputKey ?h ?o (path_resolve ?h (from_liquid ?o) g)
                                    (outputPath ?o) \<in> dom (assets ?w_end))))"
    by (elim exE conjE) (rule that, assumption+)
  have inst: "[] @ ''a.liquid'' # [''b.liquid''] = [''a.liquid''] @ ''b.liquid'' # []" by simp
  obtain wb where pb: "transformFile ?h ?o ''/p/liquid/b.liquid'' ''sections/b.liquid'' ?wx = (wb, Inr ())"
    using tb by (cases "transformFile ?h ?o ''/p/liquid/b.liquid'' ''sections/b.liquid'' ?wx") simp
  then have wbf: "?wb = wb" by simp
  from all [rule_format, OF inst sb eb]
  have "\<exists>outputFile rules.
          snd (replaceSchemaTags ?h ?o ''/p/liquid/b.liquid'' ?wx) = Inr outputFile
        \<and> getDuplicateRules ?h outputFile = Inr rules
        \<and> (if truthy rules
            then \<exists>names. rules = VArr names
              \<and> assets ?wb
                  = fold (add_variant ?h ?o (outputPath ?o) (cleanDupicateTag outputFile))
                      names (assets ?wx)
              \<and> (\<lambda>v. getOutputKeyByFileName ?h ?o (to_string ?h v @ ''.liquid'') (outputPath ?o))
                    ` set names \<subseteq> dom (assets ?w_end)
            else assets ?wb = (assets ?wx)(''sections/b.liquid'' \<mapsto> outputFile)
              \<and> ''sections/b.liquid'' \<in> dom (assets ?w_end))"
    by (simp only: p pb fst_conv prod.case sum.case)
  then obtain outputFile rules where
    o1: "snd (replaceSchemaTags ?h ?o ''/p/liquid/b.liquid'' ?wx) = Inr outputFile"
    and o2: "getDuplicateRules ?h outputFile = Inr rules"
    and o3: "if truthy rules
            then \<exists>names. rules = VArr names
              \<and> assets ?wb
                  = fold (add_variant ?h ?o (outputPath ?o) (cleanDupicateTag outputFile))
                      names (assets ?wx)
              \<and> (\<lambda>v. getOutputKeyByFileName ?h ?o (to_string ?h v @ ''.liquid'') (outputPath ?o))
                    ` set names \<subseteq> dom (assets ?w_end)
            else assets ?wb = (assets ?wx)(''sections/b.liquid'' \<mapsto> outputFile)
              \<and> ''sections/b.liquid'' \<in> dom (assets ?w_end)"
    by (elim exE conjE) (rule that, assumption+)
  from o1 rb have of: "outputFile = ''plain''" by (simp only: sum.inject)
  from o2 gb have ru: "rules = VStr []" by (simp only: of sum.inject)
  have nt: "\<not> truthy (VStr [])" by simp
  from o3 have b1: "assets ?wb = (assets ?wx)(''sections/b.liquid'' \<mapsto> ''plain'')"
    and b2: "''sections/b.liquid'' \<in> dom (assets ?w_end)"
    by (simp_all only: ru of nt if_False)
  from ent have ent': "entry = ''./liquid/a.liquid'' @ newline @ newline @ ?msg"
    by (simp only: p) simp
  from t mem carries b1 b2 show ?thesis
    by (simp only: ent' simp_thms)
qed

subsection \<open>C8: a module that exports a function\<close>

text \<open>
  C8. When the module of the schema directive loads to a function, \<open>replaceSchemaTags\<close>
  adds exactly one call to the log of calls: the function, applied to the base name of the
  file without \<^verbatim>\<open>.liquid\<close> and to the inline body parsed as JSON, or to null when there is
  no inline body or it is not valid JSON. What the call returns (or throws) decides the
  result: the returned value itself is checked to be an object and serialised into the
  schema block.
\<close>

theorem generator_called_once:
  assumes "readFile h loc = Inr fileContents"
    and "regex_exec replaceableSchemaRegex fileContents = Some m"
    and "groups m 1 = Some literal"
    and "require_resolve h (path_resolve h (from_schema opts) (strip_quotes literal)) = Inr resolved"
    and "require h (path_resolve h (from_schema opts) (strip_quotes literal))
           (w\<lparr>fileDependencies := insert resolved (fileDependencies w)\<rparr>) = (w2, Inr (VFun f))"
  shows "\<exists>arg.
       arg = (case groups m 3 of
                None \<Rightarrow> VNull
              | Some body \<Rightarrow> (case JSON_parse h body of Inl e \<Rightarrow> VNull | Inr v \<Rightarrow> v))
     \<and> calls (fst (replaceSchemaTags h opts loc w))
         = calls w @ [(f, path_basename h loc ''.liquid'', arg)]
     \<and> snd (replaceSchemaTags h opts loc w)
         = (case call_function h f (path_basename h loc ''.liquid'') arg of
              Inl e \<Rightarrow> Inl e
            | Inr schema \<Rightarrow>
                if typeof schema \<noteq> ''object'' then Inl (type_error_message h schema resolved)
                else (case JSON_stringify h schema of
                        Inl e \<Rightarrow> Inl e
                      | Inr text \<Rightarrow>
                          Inr (regex_replace replaceableSchemaRegex fileContents
                                 (asString [''{% schema %}'', text, ''{% endschema %}'']))))"
proof -
  let ?name = "path_basename h loc ''.liquid''"
  let ?arg = "parse_contents h (groups m 3)"
  have arg: "?arg = (case groups m 3 of
                None \<Rightarrow> VNull
              | Some body \<Rightarrow> (case JSON_parse h body of Inl e \<Rightarrow> VNull | Inr v \<Rightarrow> v))"
    by (simp add: parse_contents_def)
  have eff: "effective_schema h (VFun f) ?name ?arg w2
      = (w2\<lparr>calls := calls w2 @ [(f, ?name, ?arg)]\<rparr>, call_function h f ?name ?arg)"
    by (simp add: effective_schema_def)
  from require_keeps [OF assms(5)] have c2: "calls w2 = calls w" by simp
  note res = replaceSchemaTags_resolved [OF assms eff]
  have "calls (fst (replaceSchemaTags h opts loc w)) = calls w @ [(f, ?name, ?arg)]"
    by (simp add: res c2)
  moreover have "snd (replaceSchemaTags h opts loc w)
         = (case call_function h f ?name ?arg of
              Inl e \<Rightarrow> Inl e
            | Inr schema \<Rightarrow>
                if typeof schema \<noteq> ''object'' then Inl (type_error_message h schema resolved)
                else (case JSON_stringify h schema of
                        Inl e \<Rightarrow> Inl e
                      | Inr text \<Rightarrow>
                          Inr (regex_replace replaceableSchemaRegex fileContents
                                 (asString [''{% schema %}'', text, ''{% endschema %}'']))))"
    by (simp add: res)
  ultimately show ?thesis
    by (intro exI [where x = ?arg]) (simp only: arg [symmetric] simp_thms)
qed


theorem generator_called_once_witness:
  "snd (require host_generator ''/p/schema/m''
          (empty_world\<lparr>fileDependencies := insert ''/p/schema/m.js'' (fileDependencies empty_world)\<rparr>))
     = Inr (VFun 0)
   \<and> calls (fst (replaceSchemaTags host_generator sample_options ''/p/liquid/a.liquid'' empty_world))
       = [(0, ''a'', VObj [])]
   \<and> (\<exists>text. JSON_stringify host_generator (VObj [(''name'', VStr ''a''), (''settings'', VObj [])])
                  = Inr text
         \<and> snd (replaceSchemaTags host_generator sample_options ''/p/liquid/a.liquid'' empty_world)
             = Inr (''{% schema %}'' @ newline @ text @ newline @ ''{% endschema %}''))"
proof -
  let ?h = host_generator and ?o = sample_options
  let ?c = "''{% schema 'm' %}{}{% endschema %}''"
  let ?m = "the (regex_exec replaceableSchemaRegex ?c)"
  let ?w1 = "empty_world\<lparr>fileDependencies := insert ''/p/schema/m.js'' (fileDependencies empty_world)\<rparr>"
  let ?schema = "VObj [(''name'', VStr ''a''), (''settings'', VObj [])]"
  let ?text = "''{'' @ newline @ ''    '' @ dq @ ''name'' @ dq @ '': '' @ dq @ ''a'' @ dq @ '',''
         @ newline @ ''    '' @ dq @ ''settings'' @ dq @ '': {}'' @ newline @ ''}''"
  have p: "path_resolve ?h (from_schema ?o) (strip_quotes [CHR 0x27, CHR ''m'', CHR 0x27]) = ''/p/schema/m''"
      "path_basename ?h ''/p/liquid/a.liquid'' ''.liquid'' = ''a''"
    by code_simp+
  have 1: "readFile ?h ''/p/liquid/a.liquid'' = Inr ?c" by code_simp
  have ne: "regex_exec replaceableSchemaRegex ?c \<noteq> None" by code_simp
  then have 2: "regex_exec replaceableSchemaRegex ?c = Some ?m" by simp
  have 3: "groups ?m 1 = Some [CHR 0x27, CHR ''m'', CHR 0x27]" by code_simp
  have 4: "require_resolve ?h (path_resolve ?h (from_schema ?o) (strip_quotes [CHR 0x27, CHR ''m'', CHR 0x27]))
      = Inr ''/p/schema/m.js''"
    by code_simp
  have l: "snd (require ?h ''/p/schema/m'' ?w1) = Inr (VFun 0)" by code_simp
  then have 5: "require ?h (path_resolve ?h (from_schema ?o) (strip_quotes [CHR 0x27, CHR ''m'', CHR 0x27])) ?w1
      = (fst (require ?h ''/p/schema/m'' ?w1), Inr (VFun 0))"
    by (simp only: p) (simp add: prod_eq_iff)
  have g3: "groups ?m 3 = Some ''{}''" by code_simp
  have j: "JSON_parse ?h ''{}'' = Inr (VObj [])" by code_simp
  have cf: "call_function ?h 0 ''a'' (VObj []) = Inr ?schema" by code_simp
  have ty: "typeof ?schema = ''object''" by simp
  have st: "JSON_stringify ?h ?schema = Inr ?text" by code_simp
  have rr: "regex_replace replaceableSchemaRegex ?c (asString [''{% schema %}'', ?text, ''{% endschema %}''])
      = ''{% schema %}'' @ newline @ ?text @ newline @ ''{% endschema %}''"
    by code_simp
  have c0: "calls empty_world = []" by (simp add: empty_world_def)
  from generator_called_once [OF 1 2 3 4 5]
  have "calls (fst (replaceSchemaTags ?h ?o ''/p/liquid/a.liquid'' empty_world)) = [(0, ''a'', VObj [])]"
    and "snd (replaceSchemaTags ?h ?o ''/p/liquid/a.liquid'' empty_world)
       = Inr (''{% schema %}'' @ newline @ ?text @ newline @ ''{% endschema %}'')"
    by (simp_all only: p g3 j cf ty st rr c0 option.case sum.case simp_thms append_Nil if_False)
  with l st show ?thesis by blast
qed

subsection \<open>C9: modules loaded by a batch are watched and evicted\<close>

text \<open>
  C9, as amended. For every batch that is fulfilled, a module that is in the module cache
  after the entries were processed and was not in it before the batch is a file dependency,
  its directory is a context dependency, it is no longer in the module cache when
  \<open>buildSchema\<close> returns, and a later \<open>require\<close> that resolves to it, on any host, gives what
  loading the module gives on that host, not a cached value.
\<close>

theorem new_modules_tracked_and_evicted:
  assumes "snd (buildSchema h opts w) = None"
    and "readdir h (from_liquid opts) = Inr files"
    and "M \<in> fst ` set (require_cache (fst (processEntries h opts files (register_roots opts w))))"
    and "M \<notin> fst ` set (require_cache w)"
  shows "M \<in> fileDependencies (fst (buildSchema h opts w))
       \<and> path_dirname h M \<in> contextDependencies (fst (buildSchema h opts w))
       \<and> M \<notin> fst ` set (require_cache (fst (buildSchema h opts w)))
       \<and> (\<forall>h' p. require_resolve h' p = Inr M \<longrightarrow>
             snd (require h' p (fst (buildSchema h opts w))) = snd (module_load h' M))"
proof -
  let ?w1 = "register_roots opts w"
  obtain w2 r where p: "processEntries h opts files ?w1 = (w2, r)"
    by (cases "processEntries h opts files ?w1")
  let ?new = "filter (\<lambda>module. module \<notin> set (map fst (require_cache ?w1)))
                (map fst (require_cache w2))"
  have ok: "r = None"
  proof (cases r)
    case None
    then show ?thesis .
  next
    case (Some e)
    with p buildSchema_rejected [OF assms(2), of w w2 e] assms(1) show ?thesis by simp
  qed
  let ?w2 = "w2\<lparr>trace := trace ?w1 @ map EntryStarted files\<rparr>"
  have fin: "fst (buildSchema h opts w) = fold (evict h) ?new ?w2"
    using p ok buildSchema_fulfilled [OF assms(2), of w w2] by simp
  have "require_cache ?w1 = require_cache w" by (simp add: register_roots_def)
  with assms(3,4) p have mem: "M \<in> set ?new" by auto
  have gone: "M \<notin> fst ` set (require_cache (fold (evict h) ?new ?w2))"
    using mem by (simp only: fold_evict_cache) blast
  have reread: "\<forall>h' p. require_resolve h' p = Inr M \<longrightarrow>
      snd (require h' p (fold (evict h) ?new ?w2)) = snd (module_load h' M)"
    using gone require_uncached by blast
  from fold_evict_member [OF mem, of h ?w2] gone reread show ?thesis
    by (simp only: fin) blast
qed


theorem new_modules_tracked_and_evicted_witness:
  "snd (buildSchema (host_sub [''a.liquid'']) sample_options empty_world) = None
   \<and> ''/p/schema/sub/m.js'' \<in> fileDependencies (fst (buildSchema (host_sub [''a.liquid'']) sample_options empty_world))
   \<and> ''/p/schema/sub'' \<in> contextDependencies (fst (buildSchema (host_sub [''a.liquid'']) sample_options empty_world))
   \<and> ''/p/schema/sub/m.js'' \<notin> fst ` set (require_cache (fst (buildSchema (host_sub [''a.liquid'']) sample_options empty_world)))"
proof -
  have a: "snd (buildSchema (host_sub [''a.liquid'']) sample_options empty_world) = None"
    by code_simp
  have b: "readdir (host_sub [''a.liquid'']) (from_liquid sample_options) = Inr [''a.liquid'']"
    by code_simp
  have c: "''/p/schema/sub/m.js'' \<in> fst ` set (require_cache (fst (processEntries (host_sub [''a.liquid''])
              sample_options [''a.liquid''] (register_roots sample_options empty_world))))"
    by code_simp
  have d: "''/p/schema/sub/m.js'' \<notin> fst ` set (require_cache empty_world)"
    by code_simp
  have e: "path_dirname (host_sub [''a.liquid'']) ''/p/schema/sub/m.js'' = ''/p/schema/sub''"
    by code_simp
  from new_modules_tracked_and_evicted [OF a b c d] a e show ?thesis by simp
qed

text \<open>
  As stated, for every batch, the claim fails: when \<^verbatim>\<open>fs.stat\<close> fails on one entry the
  batch is rejected, the \<^verbatim>\<open>then\<close> callback does not run, and a module loaded for another
  entry stays in the module cache while its directory is not a context dependency.
\<close>

theorem rejected_batch_keeps_modules_counterexample:
  "snd (buildSchema (host_sub [''a.liquid'', ''broken'']) sample_options empty_world) \<noteq> None
   \<and> ''/p/schema/sub/m.js'' \<notin> fst ` set (require_cache empty_world)
   \<and> ''/p/schema/sub/m.js'' \<in> fst ` set (require_cache (fst (buildSchema (host_sub [''a.liquid'', ''broken''])
              sample_options empty_world)))
   \<and> ''/p/schema/sub'' \<notin> contextDependencies (fst (buildSchema (host_sub [''a.liquid'', ''broken''])
              sample_options empty_world))"
  by code_simp


subsection \<open>C10: the two configured directories are context dependencies\<close>




end
